theory Spec2Isabelle
  imports Main "HOL-Library.Sublist"
begin

section \<open>API types (api/types.ts)\<close>

text \<open>
  Values typed \<^verbatim>\<open>unknown\<close> in the source are JSON scalars. Numbers
  are kept as integers: no property below computes with them.
\<close>

datatype JsonValue = JNull | JBool bool | JNumber int | JString string

datatype ApiErrorCode =
    VALIDATION_ERROR
  | SQL_EXECUTION_ERROR
  | SQL_PARSE_ERROR
  | SESSION_NOT_FOUND
  | INVALID_SESSION
  | NOT_FOUND
  | INTERNAL_ERROR
  | NETWORK_ERROR
  | UNKNOWN_ERROR

record ApiError =
  code :: ApiErrorCode
  message :: string
  details :: "JsonValue option"

record 'a ApiResponse =
  success :: bool
  data :: "'a option"
  error :: "ApiError option"

record Session =
  id :: string
  createdAt :: string
  lastAccessedAt :: string

record CreateSessionResponse =
  sessionId :: string

record ColumnReference =
  table :: string
  column :: string

record ColumnDefinition =
  name :: string
  type :: string
  isPrimaryKey :: bool
  isForeignKey :: bool
  isNotNull :: bool
  isUnique :: bool
  defaultValue :: "string option"
  references :: "ColumnReference option"

record TableSchema =
  name :: string
  columns :: "ColumnDefinition list"

text \<open>
  A row is a \<^verbatim>\<open>Record<string, unknown>\<close>: a JSON object, kept as an
  association list so that the key order of the object is part of the value.
\<close>

type_synonym RowData = "(string \<times> JsonValue) list"

record TableData =
  tableName :: string
  columns :: "string list"
  rows :: "RowData list"

datatype RelationshipType = one_to_one | one_to_many | many_to_many

record ERRelationship =
  fromTable :: string
  fromColumn :: string
  toTable :: string
  toColumn :: string
  type :: RelationshipType

record ERDiagram =
  tables :: "TableSchema list"
  relationships :: "ERRelationship list"

datatype ExecutionStepType =
    FROM
  | JOIN
  | WHERE
  | GROUP_BY
  | HAVING
  | SELECT
  | DISTINCT
  | ORDER_BY
  | LIMIT
  | OFFSET

record ExecutionStep =
  order :: int
  type :: ExecutionStepType
  clause :: string
  description :: string

record RowState =
  data :: RowData
  included :: bool
  excludedReason :: "string option"

record StepStats =
  totalRows :: int
  includedRows :: int
  excludedRows :: int

record DataFlowStep =
  stepOrder :: int
  stepType :: ExecutionStepType
  rows :: "RowState list"
  columns :: "string list"
  description :: string
  stats :: StepStats

record QueryVisualization =
  originalQuery :: string
  executionSteps :: "ExecutionStep list"
  dataFlow :: "DataFlowStep list"
  finalResult :: TableData

record VisualizeQueryResponse =
  visualization :: QueryVisualization

definition EXECUTION_ORDER :: "ExecutionStepType list" where
  "EXECUTION_ORDER =
     [FROM, JOIN, WHERE, GROUP_BY, HAVING, SELECT, DISTINCT, ORDER_BY, LIMIT, OFFSET]"

fun STEP_DESCRIPTIONS :: "ExecutionStepType \<Rightarrow> string" where
  "STEP_DESCRIPTIONS FROM = ''Load data from table(s)''"
| "STEP_DESCRIPTIONS JOIN = ''Combine rows from joined tables''"
| "STEP_DESCRIPTIONS WHERE = ''Filter rows based on conditions''"
| "STEP_DESCRIPTIONS GROUP_BY = ''Group rows by specified columns''"
| "STEP_DESCRIPTIONS HAVING = ''Filter groups based on aggregate conditions''"
| "STEP_DESCRIPTIONS SELECT = ''Choose which columns to include''"
| "STEP_DESCRIPTIONS DISTINCT = ''Remove duplicate rows''"
| "STEP_DESCRIPTIONS ORDER_BY = ''Sort the result set''"
| "STEP_DESCRIPTIONS LIMIT = ''Restrict the number of rows''"
| "STEP_DESCRIPTIONS OFFSET = ''Skip specified number of rows''"

section \<open>The API client (api/client.ts)\<close>

record ApiClientConfig =
  baseUrl :: "string option"
  onError :: bool
  onSessionExpired :: bool

text \<open>
  The two callbacks of the configuration are optional functions returning nothing. The
  model records whether each is set, and a call of one as an effect; it takes a callback
  to return normally and to leave \<^verbatim>\<open>localStorage\<close> alone.
\<close>

definition DEFAULT_BASE_URL :: "string option" where
  "DEFAULT_BASE_URL = None"

definition config :: ApiClientConfig where
  "config = \<lparr> baseUrl = DEFAULT_BASE_URL, onError = False, onSessionExpired = False \<rparr>"

record ApiClientError =
  name :: string
  code :: ApiErrorCode
  message :: string
  details :: "JsonValue option"

definition new_ApiClientError ::
    "ApiErrorCode \<Rightarrow> string \<Rightarrow> JsonValue option \<Rightarrow> ApiClientError" where
  "new_ApiClientError c m d =
     \<lparr> name = ''ApiClientError'', code = c, message = m, details = d \<rparr>"

datatype Method = GET | POST | DELETE

datatype RequestData = SqlBody string string | QueryBody string string

text \<open>
  What \<^verbatim>\<open>axiosInstance.request\<close> does is the environment's choice:
  it resolves with a response body, or it rejects. A rejection carries
  \<^verbatim>\<open>error.response?.data?.error\<close> when the server answered with an
  error body, and the message of the thrown value when that is an
  \<^verbatim>\<open>Error\<close>.
\<close>

datatype 'a AxiosOutcome =
    Resolved "'a ApiResponse"
  | Rejected "ApiError option" "string option"

type_synonym 'a Transport = "Method \<Rightarrow> string \<Rightarrow> RequestData option \<Rightarrow> 'a AxiosOutcome"

datatype Effect =
    Sent Method string
  | CalledOnSessionExpired
  | CalledOnError ApiError

definition request ::
    "ApiClientConfig \<Rightarrow> 'a Transport \<Rightarrow> string \<Rightarrow> Method option \<Rightarrow> RequestData option
      \<Rightarrow> Effect list \<times> (ApiClientError + 'a option)" where
  "request cfg axiosRequest endpoint method body =
     (let m = (case method of Some m' \<Rightarrow> m' | None \<Rightarrow> GET) in
      case axiosRequest m endpoint body of
        Resolved responseData \<Rightarrow>
          if \<not> success responseData then
            (let err = ApiResponse.error responseData;
                 errorCode = (case err of Some e \<Rightarrow> ApiError.code e | None \<Rightarrow> UNKNOWN_ERROR);
                 errorMessage =
                   (case err of Some e \<Rightarrow> ApiError.message e | None \<Rightarrow> ''Unknown error'');
                 errorDetails = (case err of Some e \<Rightarrow> ApiError.details e | None \<Rightarrow> None)
             in ([Sent m endpoint]
                   @ (if errorCode = SESSION_NOT_FOUND \<and> onSessionExpired cfg
                      then [CalledOnSessionExpired] else [])
                   @ (case err of
                        Some e \<Rightarrow> if onError cfg then [CalledOnError e] else []
                      | None \<Rightarrow> []),
                 Inl (new_ApiClientError errorCode errorMessage errorDetails)))
          else ([Sent m endpoint], Inr (ApiResponse.data responseData))
      | Rejected (Some apiError) msg \<Rightarrow>
          ([Sent m endpoint] @ (if onError cfg then [CalledOnError apiError] else []),
           Inl (new_ApiClientError (ApiError.code apiError) (ApiError.message apiError)
                  (ApiError.details apiError)))
      | Rejected None msg \<Rightarrow>
          (let errorMessage = (case msg of Some t \<Rightarrow> t | None \<Rightarrow> ''Network request failed'')
           in ([Sent m endpoint]
                 @ (if onError cfg
                    then [CalledOnError
                            \<lparr> ApiError.code = NETWORK_ERROR, ApiError.message = errorMessage,
                              ApiError.details = None \<rparr>]
                    else []),
               Inl (new_ApiClientError NETWORK_ERROR errorMessage None))))"

text \<open>The server, as far as the three endpoints used below go.\<close>

record Backend =
  sessionEndpoint :: "Session Transport"
  createEndpoint :: "CreateSessionResponse Transport"
  visualizeEndpoint :: "VisualizeQueryResponse Transport"

definition createSession ::
    "ApiClientConfig \<Rightarrow> Backend
      \<Rightarrow> Effect list \<times> (ApiClientError + CreateSessionResponse option)" where
  "createSession cfg be = request cfg (createEndpoint be) ''/api/sessions'' (Some POST) None"

definition getSession ::
    "ApiClientConfig \<Rightarrow> Backend \<Rightarrow> string
      \<Rightarrow> Effect list \<times> (ApiClientError + Session option)" where
  "getSession cfg be sid =
     request cfg (sessionEndpoint be) (''/api/sessions/'' @ sid) None None"

definition visualizeQuery ::
    "ApiClientConfig \<Rightarrow> Backend \<Rightarrow> string \<Rightarrow> string
      \<Rightarrow> Effect list \<times> (ApiClientError + VisualizeQueryResponse option)" where
  "visualizeQuery cfg be sid query =
     request cfg (visualizeEndpoint be) ''/api/sql/visualize'' (Some POST)
       (Some (QueryBody sid query))"

subsection \<open>Session management helpers\<close>

type_synonym Storage = "string \<rightharpoonup> string"

definition SESSION_STORAGE_KEY :: string where
  "SESSION_STORAGE_KEY = ''sql-viz-session-id''"

definition getItem :: "Storage \<Rightarrow> string \<Rightarrow> string option" where
  "getItem ls k = ls k"

definition setItem :: "Storage \<Rightarrow> string \<Rightarrow> string \<Rightarrow> Storage" where
  "setItem ls k v = ls(k \<mapsto> v)"

definition removeItem :: "Storage \<Rightarrow> string \<Rightarrow> Storage" where
  "removeItem ls k = ls(k := None)"

text \<open>
  \<open>initSession\<close> rejects when \<open>createSession\<close> rejects, and when
  the response it destructures has no payload (a \<^verbatim>\<open>TypeError\<close>).
\<close>

datatype Failure = Thrown ApiClientError | TypeError

record InitResult =
  outcome :: "Failure + string"
  storage :: Storage
  effects :: "Effect list"

text \<open>
  The last three statements of \<open>initSession\<close>, which both of its paths to a new
  session share: create the session, store its id, return it. \<open>done\<close> holds the
  effects so far.
\<close>

definition createAndStore ::
    "ApiClientConfig \<Rightarrow> Backend \<Rightarrow> Storage \<Rightarrow> Effect list \<Rightarrow> InitResult" where
  "createAndStore cfg be ls done =
     (case createSession cfg be of
        (fx, Inl e) \<Rightarrow> \<lparr> outcome = Inl (Thrown e), storage = ls, effects = done @ fx \<rparr>
      | (fx, Inr None) \<Rightarrow> \<lparr> outcome = Inl TypeError, storage = ls, effects = done @ fx \<rparr>
      | (fx, Inr (Some r)) \<Rightarrow>
          \<lparr> outcome = Inr (CreateSessionResponse.sessionId r),
            storage = setItem ls SESSION_STORAGE_KEY (CreateSessionResponse.sessionId r),
            effects = done @ fx \<rparr>)"

definition initSession :: "ApiClientConfig \<Rightarrow> Backend \<Rightarrow> Storage \<Rightarrow> InitResult" where
  "initSession cfg be ls =
     (case getItem ls SESSION_STORAGE_KEY of
        None \<Rightarrow> createAndStore cfg be ls []
      | Some existingSessionId \<Rightarrow>
          if existingSessionId = [] then createAndStore cfg be ls []
          else (case getSession cfg be existingSessionId of
                  (fx, Inr _) \<Rightarrow>
                    \<lparr> outcome = Inr existingSessionId, storage = ls, effects = fx \<rparr>
                | (fx, Inl _) \<Rightarrow>
                    createAndStore cfg be (removeItem ls SESSION_STORAGE_KEY) fx))"

definition getStoredSessionId :: "Storage \<Rightarrow> string option" where
  "getStoredSessionId ls = getItem ls SESSION_STORAGE_KEY"

definition clearStoredSession :: "Storage \<Rightarrow> Storage" where
  "clearStoredSession ls = removeItem ls SESSION_STORAGE_KEY"

subsection \<open>Example backends\<close>

definition okResponse :: "'a \<Rightarrow> 'a AxiosOutcome" where
  "okResponse x = Resolved \<lparr> success = True, data = Some x, error = None \<rparr>"

definition errorResponse :: "ApiErrorCode \<Rightarrow> string \<Rightarrow> 'a AxiosOutcome" where
  "errorResponse c m =
     Rejected (Some \<lparr> ApiError.code = c, ApiError.message = m, ApiError.details = None \<rparr>) None"

text \<open>
  \<open>demoBackend\<close> knows the single session \<open>s-1\<close>, hands out
  \<open>s-2\<close> as the next one, and rejects every query as unparseable.
\<close>

definition demoBackend :: Backend where
  "demoBackend =
     \<lparr> sessionEndpoint =
         (\<lambda>m url body.
            if url = ''/api/sessions/s-1''
            then okResponse \<lparr> id = ''s-1'', createdAt = ''2024-01-15'', lastAccessedAt = ''2024-01-15'' \<rparr>
            else errorResponse SESSION_NOT_FOUND ''Session not found''),
       createEndpoint = (\<lambda>m url body. okResponse \<lparr> sessionId = ''s-2'' \<rparr>),
       visualizeEndpoint = (\<lambda>m url body. errorResponse SQL_PARSE_ERROR ''Could not parse the SQL query'') \<rparr>"

definition validStorage :: Storage where
  "validStorage = [SESSION_STORAGE_KEY \<mapsto> ''s-1'']"

definition staleStorage :: Storage where
  "staleStorage = [SESSION_STORAGE_KEY \<mapsto> ''expired'']"

section \<open>The application store (store/index.ts)\<close>

datatype AppView = Setup | Schema | Query | Visualization

record AppState =
  sessionId :: "string option"
  isSessionLoading :: bool
  sessionError :: "string option"
  currentView :: AppView
  setupSQL :: string
  querySQL :: string
  tables :: "TableSchema list"
  tableData :: "TableData list"
  erDiagram :: "ERDiagram option"
  visualization :: "QueryVisualization option"
  currentStepIndex :: int
  isExecuting :: bool
  executionError :: "string option"
  executionMessage :: "string option"

text \<open>
  Every action of the store is \<^verbatim>\<open>set(partial)\<close>: the fields named
  in the partial object are replaced and all others are kept.
  \<^verbatim>\<open>get()\<close> is the state the action receives.
\<close>

definition setVisualization :: "QueryVisualization option \<Rightarrow> AppState \<Rightarrow> AppState" where
  "setVisualization vis s =
     s\<lparr> AppState.visualization := vis,
        currentStepIndex := 0,
        currentView := (case vis of Some _ \<Rightarrow> Visualization | None \<Rightarrow> currentView s) \<rparr>"

definition setCurrentStepIndex :: "int \<Rightarrow> AppState \<Rightarrow> AppState" where
  "setCurrentStepIndex index s = s\<lparr> currentStepIndex := index \<rparr>"

definition nextStep :: "AppState \<Rightarrow> AppState" where
  "nextStep s =
     (case AppState.visualization s of
        None \<Rightarrow> s
      | Some vis \<Rightarrow>
          if currentStepIndex s < int (length (dataFlow vis)) - 1
          then s\<lparr> currentStepIndex := currentStepIndex s + 1 \<rparr>
          else s)"

definition prevStep :: "AppState \<Rightarrow> AppState" where
  "prevStep s =
     (if currentStepIndex s > 0
      then s\<lparr> currentStepIndex := currentStepIndex s - 1 \<rparr>
      else s)"

definition reset :: "AppState \<Rightarrow> AppState" where
  "reset s =
     s\<lparr> AppState.tables := [],
        tableData := [],
        erDiagram := None,
        AppState.visualization := None,
        currentStepIndex := 0,
        executionError := None,
        executionMessage := None,
        currentView := Setup \<rparr>"

subsection \<open>Selectors\<close>

text \<open>
  Indexing a JavaScript array outside its bounds (or at a negative index) gives
  \<^verbatim>\<open>undefined\<close>; \<open>nth_opt\<close> writes that out.
\<close>

definition nth_opt :: "'a list \<Rightarrow> int \<Rightarrow> 'a option" where
  "nth_opt xs i = (if 0 \<le> i \<and> i < int (length xs) then Some (xs ! nat i) else None)"

definition selectCurrentDataFlow :: "AppState \<Rightarrow> DataFlowStep option" where
  "selectCurrentDataFlow state =
     (case AppState.visualization state of
        None \<Rightarrow> None
      | Some vis \<Rightarrow> nth_opt (dataFlow vis) (currentStepIndex state))"

definition selectCurrentExecutionStep :: "AppState \<Rightarrow> ExecutionStep option" where
  "selectCurrentExecutionStep state =
     (case AppState.visualization state of
        None \<Rightarrow> None
      | Some vis \<Rightarrow>
          (case nth_opt (dataFlow vis) (currentStepIndex state) of
             None \<Rightarrow> None
           | Some df \<Rightarrow> find (\<lambda>step. order step = stepOrder df) (executionSteps vis)))"

definition selectIsFirstStep :: "AppState \<Rightarrow> bool" where
  "selectIsFirstStep state = (currentStepIndex state = 0)"

definition selectIsLastStep :: "AppState \<Rightarrow> bool" where
  "selectIsLastStep state =
     (case AppState.visualization state of
        None \<Rightarrow> True
      | Some vis \<Rightarrow> currentStepIndex state \<ge> int (length (dataFlow vis)) - 1)"

definition selectTotalSteps :: "AppState \<Rightarrow> int" where
  "selectTotalSteps state =
     (case AppState.visualization state of
        None \<Rightarrow> 0
      | Some vis \<Rightarrow> int (length (dataFlow vis)))"

subsection \<open>Sequences of navigation calls\<close>

datatype StoreCall = NextStep | PrevStep | SetVisualization "QueryVisualization option"

fun call :: "StoreCall \<Rightarrow> AppState \<Rightarrow> AppState" where
  "call NextStep s = nextStep s"
| "call PrevStep s = prevStep s"
| "call (SetVisualization vis) s = setVisualization vis s"

fun calls :: "StoreCall list \<Rightarrow> AppState \<Rightarrow> AppState" where
  "calls [] s = s"
| "calls (c # cs) s = calls cs (call c s)"

text \<open>
  The range the step index is kept in: \<open>[0, n - 1]\<close> for a loaded
  visualization of \<open>n \<ge> 1\<close> steps, and the single index \<open>0\<close>
  when nothing is loaded or the loaded visualization has no step.
\<close>

definition stepIndexInRange :: "AppState \<Rightarrow> bool" where
  "stepIndexInRange s =
     (0 \<le> currentStepIndex s \<and> currentStepIndex s \<le> max 0 (selectTotalSteps s - 1))"

subsection \<open>Example data\<close>

definition emptyResult :: TableData where
  "emptyResult = \<lparr> tableName = ''Query Result'', columns = [], rows = [] \<rparr>"

definition fromStep :: DataFlowStep where
  "fromStep =
     \<lparr> stepOrder = 1, stepType = FROM, rows = [], columns = [],
       description = ''Load data from table(s)'',
       stats = \<lparr> totalRows = 0, includedRows = 0, excludedRows = 0 \<rparr> \<rparr>"

definition oneStepVis :: QueryVisualization where
  "oneStepVis =
     \<lparr> originalQuery = ''SELECT * FROM t'',
       executionSteps =
         [\<lparr> order = 1, type = FROM, clause = ''FROM t'',
            description = ''Load data from table(s)'' \<rparr>],
       dataFlow = [fromStep],
       finalResult = emptyResult \<rparr>"

definition twoStepVis :: QueryVisualization where
  "twoStepVis = oneStepVis\<lparr> dataFlow := [fromStep, fromStep\<lparr> stepOrder := 2, stepType := SELECT \<rparr>] \<rparr>"

definition noStepVis :: QueryVisualization where
  "noStepVis = oneStepVis\<lparr> executionSteps := [], dataFlow := [] \<rparr>"

definition demoState :: AppState where
  "demoState =
     \<lparr> sessionId = Some ''s-1'', isSessionLoading = False, sessionError = None,
       currentView = Visualization, setupSQL = ''CREATE TABLE t (id INTEGER);'',
       querySQL = ''SELECT * FROM t'', tables = [], tableData = [], erDiagram = None,
       visualization = Some twoStepVis, currentStepIndex = 0, isExecuting = False,
       executionError = None, executionMessage = None \<rparr>"

section \<open>Components (components/DataFlowVisualizer.tsx)\<close>

text \<open>
  The rows \<open>DataFlowVisualizer\<close> hands to the final-result table: every row of
  \<open>finalResult\<close> as an included row.
\<close>

definition finalResultTableRows :: "QueryVisualization \<Rightarrow> RowState list" where
  "finalResultTableRows vis =
     map (\<lambda>row. \<lparr> RowState.data = row, included = True, excludedReason = None \<rparr>)
       (TableData.rows (finalResult vis))"

section \<open>The visualization engine behind the API\<close>

text \<open>
  The engine that computes a \<open>QueryVisualization\<close> runs on the server and is
  not part of these sources, which hold its declarations (the types above) and its caller
  (\<open>visualizeQuery\<close>). Its parts are modelled here from the specification: the
  planner, the stage simulator and the result assembler, and of the clause parser its
  check that the statement is a SELECT. The splitting of a SELECT statement into its
  clauses and the session's SQL engine are taken as parameters.
\<close>

text \<open>
  Modelled from the spec: the join types the clause parser (not in the sources) tells
  apart.
\<close>

datatype JoinType = InnerJoin | LeftJoin | RightJoin | FullJoin

text \<open>
  Modelled from the spec: one JOIN clause of the parser's structured query, with its
  verbatim text, the joined table, its alias (the table name when it has none) and the
  text of its ON predicate.
\<close>

record JoinClause =
  joinText :: string
  joinType :: JoinType
  joinTable :: string
  joinAlias :: string
  onPredicate :: string

text \<open>
  Modelled from the spec: the structured query descriptor the clause parser produces. A
  clause that is absent from the query is \<open>None\<close>; a present clause carries
  its verbatim text and its operands. \<open>selectList\<close> is \<open>None\<close> for
  \<open>*\<close>.
\<close>

record StructuredQuery =
  selectText :: string
  selectList :: "string list option"
  selectDistinct :: bool
  fromText :: string
  fromTable :: string
  joins :: "JoinClause list"
  whereClause :: "(string \<times> string) option"
  groupByClause :: "(string \<times> string list) option"
  havingClause :: "(string \<times> string) option"
  orderByClause :: "(string \<times> (string \<times> bool) list) option"
  limitClause :: "(string \<times> nat) option"
  offsetClause :: "(string \<times> nat) option"

text \<open>
  Modelled from the spec: the operands of a stage of the planner, a tagged union over the
  stage type. The LIMIT stage also carries the query's offset (0 when there is none): the
  window it keeps starts after the rows OFFSET skips.
\<close>

datatype StageOperands =
    FromOp string
  | JoinOp JoinType string string string
  | WhereOp string
  | GroupByOp "string list"
  | HavingOp string
  | SelectOp "string list option"
  | DistinctOp
  | OrderByOp "(string \<times> bool) list"
  | LimitOp nat nat
  | OffsetOp nat

text \<open>Modelled from the spec: a stage of the planner's plan.\<close>

record PlannedStage =
  order :: int
  type :: ExecutionStepType
  clauseText :: string
  description :: string
  operands :: StageOperands

text \<open>Modelled from the spec: the planner's stage type for each kind of operands.\<close>

fun typeOf :: "StageOperands \<Rightarrow> ExecutionStepType" where
  "typeOf (FromOp _) = FROM"
| "typeOf (JoinOp _ _ _ _) = JOIN"
| "typeOf (WhereOp _) = WHERE"
| "typeOf (GroupByOp _) = GROUP_BY"
| "typeOf (HavingOp _) = HAVING"
| "typeOf (SelectOp _) = SELECT"
| "typeOf DistinctOp = DISTINCT"
| "typeOf (OrderByOp _) = ORDER_BY"
| "typeOf (LimitOp _ _) = LIMIT"
| "typeOf (OffsetOp _) = OFFSET"

text \<open>
  Modelled from the spec: the planner's layout of a query's clauses in the logical order,
  each with its verbatim text. FROM and SELECT are always there, one JOIN stage stands for
  each join in textual order, DISTINCT comes from the SELECT list's prefix, and an absent
  clause gives no stage.
\<close>

definition stagesOf :: "StructuredQuery \<Rightarrow> (string \<times> StageOperands) list" where
  "stagesOf q =
     [(fromText q, FromOp (fromTable q))]
     @ map (\<lambda>j. (joinText j, JoinOp (joinType j) (joinTable j) (joinAlias j) (onPredicate j)))
         (joins q)
     @ (case whereClause q of None \<Rightarrow> [] | Some (t, p) \<Rightarrow> [(t, WhereOp p)])
     @ (case groupByClause q of None \<Rightarrow> [] | Some (t, cs) \<Rightarrow> [(t, GroupByOp cs)])
     @ (case havingClause q of None \<Rightarrow> [] | Some (t, p) \<Rightarrow> [(t, HavingOp p)])
     @ [(selectText q, SelectOp (selectList q))]
     @ (if selectDistinct q then [(selectText q, DistinctOp)] else [])
     @ (case orderByClause q of None \<Rightarrow> [] | Some (t, ks) \<Rightarrow> [(t, OrderByOp ks)])
     @ (case limitClause q of
          None \<Rightarrow> []
        | Some (t, n) \<Rightarrow>
            [(t, LimitOp n (case offsetClause q of None \<Rightarrow> 0 | Some (_, k) \<Rightarrow> k))])
     @ (case offsetClause q of None \<Rightarrow> [] | Some (t, k) \<Rightarrow> [(t, OffsetOp k)])"

text \<open>
  Modelled from the spec: the planner's numbering of the emitted stages, densely from a
  first order value, each with the fixed description of its type.
\<close>

fun numbered :: "int \<Rightarrow> (string \<times> StageOperands) list \<Rightarrow> PlannedStage list" where
  "numbered i [] = []"
| "numbered i ((t, ops) # rest) =
     \<lparr> PlannedStage.order = i, PlannedStage.type = typeOf ops, clauseText = t,
       PlannedStage.description = STEP_DESCRIPTIONS (typeOf ops), operands = ops \<rparr>
     # numbered (i + 1) rest"

text \<open>Modelled from the spec: the execution planner; orders are 1-based.\<close>

definition plan :: "StructuredQuery \<Rightarrow> PlannedStage list" where
  "plan q = numbered 1 (stagesOf q)"

text \<open>
  Modelled from the spec: the capabilities the engine consumes from the session's SQL
  engine, for one session. \<open>scanTable\<close> gives a table's columns and rows, or
  nothing for an unknown table. \<open>evaluatePredicate\<close> gives the truth value of
  a predicate text on a row, or nothing when it cannot be evaluated.
  \<open>evaluateAggregate\<close> does the same for a HAVING predicate on a group's
  representative row and also renders the computed aggregate. \<open>valueLe\<close> is
  the engine's ordering of column values (a missing column reads as \<open>None\<close>).
\<close>

record Engine =
  scanTable :: "string \<Rightarrow> (string list \<times> RowData list) option"
  evaluatePredicate :: "string \<Rightarrow> RowData \<Rightarrow> bool option"
  evaluateAggregate :: "string \<Rightarrow> RowData \<Rightarrow> (bool \<times> string) option"
  valueLe :: "JsonValue option \<Rightarrow> JsonValue option \<Rightarrow> bool"

text \<open>
  Modelled from the spec: the simulator's working row set, threaded between the stages,
  with the column list of the current stage.
\<close>

record Working =
  workingRows :: "RowState list"
  workingColumns :: "string list"

text \<open>
  Modelled from the spec: the simulator's row entering the working set: included, no
  reason.
\<close>

definition fresh :: "RowData \<Rightarrow> RowState" where
  "fresh d = \<lparr> RowState.data = d, included = True, excludedReason = None \<rparr>"

text \<open>
  Modelled from the spec: the simulator's marking of a row as excluded, with a reason.
\<close>

definition exclude :: "string \<Rightarrow> RowState \<Rightarrow> RowState" where
  "exclude reason r = r\<lparr> included := False, excludedReason := Some reason \<rparr>"

text \<open>
  Modelled from the spec: the simulator's failure: \<open>SQL_EXECUTION_ERROR\<close>
  carrying the offending clause text.
\<close>

definition stageFailure :: "string \<Rightarrow> ApiError" where
  "stageFailure clauseTxt =
     \<lparr> ApiError.code = SQL_EXECUTION_ERROR, ApiError.message = clauseTxt,
       ApiError.details = None \<rparr>"

text \<open>
  Modelled from the spec: the engine's projection of a row to a column list: the listed
  columns the row has, in the order of the list.
\<close>

definition project :: "string list \<Rightarrow> RowData \<Rightarrow> RowData" where
  "project cols d =
     concat (map (\<lambda>c. case map_of d c of None \<Rightarrow> [] | Some v \<Rightarrow> [(c, v)]) cols)"

text \<open>
  Modelled from the spec: the simulator's grouping or dedupe key: a row's values on a
  column list.
\<close>

definition keyOf :: "string list \<Rightarrow> RowState \<Rightarrow> JsonValue option list" where
  "keyOf cols r = map (map_of (RowState.data r)) cols"

text \<open>
  Modelled from the spec: the simulator's collapse of a row list to the first row of every
  key, in input order.
\<close>

fun firstOfEachKey :: "('a \<Rightarrow> 'k) \<Rightarrow> 'k list \<Rightarrow> 'a list \<Rightarrow> 'a list" where
  "firstOfEachKey key seen [] = []"
| "firstOfEachKey key seen (x # xs) =
     (if key x \<in> set seen then firstOfEachKey key seen xs
      else x # firstOfEachKey key (key x # seen) xs)"

text \<open>
  Modelled from the spec: the simulator's FROM stage: it scans the table; every row is
  included.
\<close>

definition fromStage ::
    "(string list \<times> RowData list) option \<Rightarrow> string \<Rightarrow> Working \<Rightarrow> ApiError + Working" where
  "fromStage scanned clauseTxt w =
     (case scanned of
        None \<Rightarrow> Inl (stageFailure clauseTxt)
      | Some (cols, rs) \<Rightarrow> Inr \<lparr> workingRows = map fresh rs, workingColumns = cols \<rparr>)"

text \<open>
  Modelled from the spec: the simulator's join of one left row: its combination
  with every right row satisfying the ON predicate, and for a left or full join without
  a match the left row with the right columns null-filled. Nothing when the predicate
  cannot be evaluated on some pair.
\<close>

definition joinLeftRow ::
    "JoinType \<Rightarrow> (RowData \<Rightarrow> bool option) \<Rightarrow> RowData \<Rightarrow> RowData list \<Rightarrow> RowData
      \<Rightarrow> RowData list option" where
  "joinLeftRow jt onP rightNulls rightRows l =
     (case those (map (\<lambda>r. onP (l @ r)) rightRows) of
        None \<Rightarrow> None
      | Some flags \<Rightarrow>
          (let matched = map snd (filter fst (zip flags (map (\<lambda>r. l @ r) rightRows)))
           in Some (if matched = [] \<and> (jt = LeftJoin \<or> jt = FullJoin)
                    then [l @ rightNulls] else matched)))"

text \<open>
  Modelled from the spec: the simulator's right rows no left row matches, which a right or
  full join emits with the left columns null-filled.
\<close>

definition unmatchedRight ::
    "JoinType \<Rightarrow> (RowData \<Rightarrow> bool option) \<Rightarrow> RowData \<Rightarrow> RowData list \<Rightarrow> RowData list
      \<Rightarrow> RowData list" where
  "unmatchedRight jt onP leftNulls leftRows rightRows =
     (if jt = RightJoin \<or> jt = FullJoin
      then map (\<lambda>r. leftNulls @ r)
             (filter (\<lambda>r. \<forall>l \<in> set leftRows. onP (l @ r) \<noteq> Some True) rightRows)
      else [])"

text \<open>
  Modelled from the spec: the simulator's namespacing of a joined column: a right column
  whose name is already in use is prefixed with the alias.
\<close>

definition qualify :: "string list \<Rightarrow> string \<Rightarrow> string \<Rightarrow> string" where
  "qualify used alias c = (if c \<in> set used then alias @ ''.'' @ c else c)"

text \<open>Modelled from the spec: the simulator's rows of the joined table, namespaced.\<close>

definition rightRowsOf :: "string list \<Rightarrow> string \<Rightarrow> RowData list \<Rightarrow> RowData list" where
  "rightRowsOf used alias rs = map (map (\<lambda>(c, v). (qualify used alias c, v))) rs"

text \<open>
  Modelled from the spec: the simulator's JOIN stage: the working set becomes the match
  set of the working rows with the joined table's rows, in left-deep order. Every
  produced row is included.
\<close>

definition joinStage ::
    "JoinType \<Rightarrow> string \<Rightarrow> (string list \<times> RowData list) option \<Rightarrow> (RowData \<Rightarrow> bool option)
      \<Rightarrow> string \<Rightarrow> Working \<Rightarrow> ApiError + Working" where
  "joinStage jt alias scanned onP clauseTxt w =
     (case scanned of
        None \<Rightarrow> Inl (stageFailure clauseTxt)
      | Some (cols, rs) \<Rightarrow>
          (let rightRows = rightRowsOf (workingColumns w) alias rs;
               rightNulls = map (\<lambda>c. (qualify (workingColumns w) alias c, JNull)) cols;
               leftRows = map RowState.data (workingRows w);
               leftNulls = map (\<lambda>c. (c, JNull)) (workingColumns w)
           in case those (map (joinLeftRow jt onP rightNulls rightRows) leftRows) of
                None \<Rightarrow> Inl (stageFailure clauseTxt)
              | Some produced \<Rightarrow>
                  Inr \<lparr> workingRows =
                          map fresh (concat produced
                                     @ unmatchedRight jt onP leftNulls leftRows rightRows),
                        workingColumns =
                          workingColumns w @ map (qualify (workingColumns w) alias) cols \<rparr>))"

text \<open>
  Modelled from the spec: the simulator's WHERE on one row: the predicate is evaluated on
  a row still included and a failing row is marked excluded, the reason rendering the
  original predicate text. A row excluded upstream passes through untouched.
\<close>

definition whereRow :: "(RowData \<Rightarrow> bool option) \<Rightarrow> string \<Rightarrow> RowState \<Rightarrow> RowState option" where
  "whereRow holds predicate r =
     (if \<not> included r then Some r
      else (case holds (RowState.data r) of
              None \<Rightarrow> None
            | Some True \<Rightarrow> Some r
            | Some False \<Rightarrow> Some (exclude (''Does not match: '' @ predicate) r)))"

text \<open>
  Modelled from the spec: the simulator's WHERE stage; it fails when a row cannot be
  evaluated.
\<close>

definition whereStage ::
    "(RowData \<Rightarrow> bool option) \<Rightarrow> string \<Rightarrow> string \<Rightarrow> Working \<Rightarrow> ApiError + Working" where
  "whereStage holds predicate clauseTxt w =
     (case those (map (whereRow holds predicate) (workingRows w)) of
        None \<Rightarrow> Inl (stageFailure clauseTxt)
      | Some rs \<Rightarrow> Inr (w\<lparr> workingRows := rs \<rparr>))"

text \<open>
  Modelled from the spec: the simulator's GROUP BY stage: it collapses the included rows
  with equal values on the group columns into the first row of each group; rows excluded
  upstream are dropped. An unknown group column fails the stage.
\<close>

definition groupByStage :: "string list \<Rightarrow> string \<Rightarrow> Working \<Rightarrow> ApiError + Working" where
  "groupByStage cols clauseTxt w =
     (if \<not> set cols \<subseteq> set (workingColumns w) then Inl (stageFailure clauseTxt)
      else Inr (w\<lparr> workingRows :=
                    firstOfEachKey (keyOf cols) [] (filter included (workingRows w)) \<rparr>))"

text \<open>
  Modelled from the spec: the simulator's HAVING on one group: a group whose aggregate
  predicate fails is marked, the reason naming the condition and the computed value.
\<close>

definition havingRow ::
    "(RowData \<Rightarrow> (bool \<times> string) option) \<Rightarrow> string \<Rightarrow> RowState \<Rightarrow> RowState option" where
  "havingRow aggregate predicate r =
     (if \<not> included r then Some r
      else (case aggregate (RowState.data r) of
              None \<Rightarrow> None
            | Some (True, _) \<Rightarrow> Some r
            | Some (False, actual) \<Rightarrow>
                Some (exclude (''Does not match: '' @ predicate @ '' (actual: '' @ actual @ '')'') r)))"

text \<open>Modelled from the spec: the simulator's HAVING stage.\<close>

definition havingStage ::
    "(RowData \<Rightarrow> (bool \<times> string) option) \<Rightarrow> string \<Rightarrow> string \<Rightarrow> Working
      \<Rightarrow> ApiError + Working" where
  "havingStage aggregate predicate clauseTxt w =
     (case those (map (havingRow aggregate predicate) (workingRows w)) of
        None \<Rightarrow> Inl (stageFailure clauseTxt)
      | Some rs \<Rightarrow> Inr (w\<lparr> workingRows := rs \<rparr>))"

text \<open>
  Modelled from the spec: the simulator's SELECT stage: it projects every row to the
  selected columns (all columns for \<open>*\<close>) and changes no inclusion state. An
  unknown column fails the stage.
\<close>

definition selectStage :: "string list option \<Rightarrow> string \<Rightarrow> Working \<Rightarrow> ApiError + Working" where
  "selectStage selected clauseTxt w =
     (case selected of
        None \<Rightarrow> Inr w
      | Some cols \<Rightarrow>
          if \<not> set cols \<subseteq> set (workingColumns w) then Inl (stageFailure clauseTxt)
          else Inr \<lparr> workingRows =
                      map (\<lambda>r. r\<lparr> RowState.data := project cols (RowState.data r) \<rparr>)
                        (workingRows w),
                    workingColumns = cols \<rparr>)"

text \<open>
  Modelled from the spec: the simulator's DISTINCT stage: it keeps the first of the
  included rows with identical values on all projected columns; like GROUP BY it rebuilds
  the physical row set.
\<close>

definition distinctStage :: "Working \<Rightarrow> ApiError + Working" where
  "distinctStage w =
     Inr (w\<lparr> workingRows :=
               firstOfEachKey (keyOf (workingColumns w)) [] (filter included (workingRows w)) \<rparr>)"

text \<open>
  Modelled from the spec: the simulator's comparison of two rows on the sort keys, key
  after key, each in its direction (\<open>True\<close> for ascending).
\<close>

fun rowLe ::
    "(JsonValue option \<Rightarrow> JsonValue option \<Rightarrow> bool) \<Rightarrow> (string \<times> bool) list
      \<Rightarrow> RowState \<Rightarrow> RowState \<Rightarrow> bool" where
  "rowLe le [] a b = True"
| "rowLe le ((c, ascending) # ks) a b =
     (let x = map_of (RowState.data a) c; y = map_of (RowState.data b) c
      in if le x y \<and> le y x then rowLe le ks a b
         else if ascending then le x y else le y x)"

text \<open>Modelled from the spec: the simulator's stable insertion into a sorted list.\<close>

fun insertSorted :: "('a \<Rightarrow> 'a \<Rightarrow> bool) \<Rightarrow> 'a \<Rightarrow> 'a list \<Rightarrow> 'a list" where
  "insertSorted le x [] = [x]"
| "insertSorted le x (y # ys) =
     (if le x y then x # y # ys else y # insertSorted le x ys)"

text \<open>
  Modelled from the spec: the simulator's stable sort (ties keep the input order).
\<close>

definition stableSort :: "('a \<Rightarrow> 'a \<Rightarrow> bool) \<Rightarrow> 'a list \<Rightarrow> 'a list" where
  "stableSort le xs = foldr (insertSorted le) xs []"

text \<open>
  Modelled from the spec: the simulator's ORDER BY stage: it sorts the included rows and
  appends the excluded rows after them, in their input order. An unknown sort column fails
  the stage.
\<close>

definition orderByStage ::
    "(JsonValue option \<Rightarrow> JsonValue option \<Rightarrow> bool) \<Rightarrow> (string \<times> bool) list \<Rightarrow> string
      \<Rightarrow> Working \<Rightarrow> ApiError + Working" where
  "orderByStage le keys clauseTxt w =
     (if \<not> fst ` set keys \<subseteq> set (workingColumns w) then Inl (stageFailure clauseTxt)
      else Inr (w\<lparr> workingRows :=
                    stableSort (rowLe le keys) (filter included (workingRows w))
                    @ filter (\<lambda>r. \<not> included r) (workingRows w) \<rparr>))"

text \<open>
  Modelled from the spec: the simulator's marking of the rows outside a window. Included
  rows are counted from \<open>i\<close>; one whose count is outside the window is marked
  excluded. Rows excluded upstream are not counted and stay as they are.
\<close>

fun markWindow :: "(nat \<Rightarrow> bool) \<Rightarrow> nat \<Rightarrow> RowState list \<Rightarrow> RowState list" where
  "markWindow inside i [] = []"
| "markWindow inside i (r # rs) =
     (if included r
      then (if inside i then r else exclude ''Excluded by LIMIT/OFFSET'' r)
           # markWindow inside (Suc i) rs
      else r # markWindow inside i rs)"

text \<open>
  Modelled from the spec: the simulator's LIMIT stage: it caps the rows at the end of the
  window, which starts after the offset.
\<close>

definition limitStage :: "nat \<Rightarrow> nat \<Rightarrow> Working \<Rightarrow> ApiError + Working" where
  "limitStage n offset w =
     Inr (w\<lparr> workingRows := markWindow (\<lambda>i. i < offset + n) 0 (workingRows w) \<rparr>)"

text \<open>
  Modelled from the spec: the simulator's OFFSET stage: it drops the first rows.
\<close>

definition offsetStage :: "nat \<Rightarrow> Working \<Rightarrow> ApiError + Working" where
  "offsetStage k w =
     Inr (w\<lparr> workingRows := markWindow (\<lambda>i. k \<le> i) 0 (workingRows w) \<rparr>)"

text \<open>
  Modelled from the spec: the simulator's dispatch of one stage on its operands.
\<close>

fun runStage :: "Engine \<Rightarrow> StageOperands \<Rightarrow> string \<Rightarrow> Working \<Rightarrow> ApiError + Working" where
  "runStage e (FromOp t) txt w = fromStage (scanTable e t) txt w"
| "runStage e (JoinOp jt t a p) txt w =
     joinStage jt a (scanTable e t) (evaluatePredicate e p) txt w"
| "runStage e (WhereOp p) txt w = whereStage (evaluatePredicate e p) p txt w"
| "runStage e (GroupByOp cs) txt w = groupByStage cs txt w"
| "runStage e (HavingOp p) txt w = havingStage (evaluateAggregate e p) p txt w"
| "runStage e (SelectOp sel) txt w = selectStage sel txt w"
| "runStage e DistinctOp txt w = distinctStage w"
| "runStage e (OrderByOp ks) txt w = orderByStage (valueLe e) ks txt w"
| "runStage e (LimitOp n k) txt w = limitStage n k w"
| "runStage e (OffsetOp k) txt w = offsetStage k w"

text \<open>
  Modelled from the spec: the simulator's recount of a physical row list after marking:
  its length, the number of its included rows, and the difference.
\<close>

definition recount :: "RowState list \<Rightarrow> StepStats" where
  "recount rs =
     \<lparr> totalRows = int (length rs),
       includedRows = int (length (filter included rs)),
       excludedRows = int (length rs) - int (length (filter included rs)) \<rparr>"

text \<open>
  Modelled from the spec: the simulator's statistics of a stage. The spec recomputes
  them from the physical row list after marking, and for the two stages that collapse
  rows, GROUP BY and DISTINCT, it also wants them to account for the rows removed
  (pre and post counts, the removed duplicates as excluded rows). The two do not agree
  on those stages, so there the statistics are given by a parameter, from the stage type
  and the row lists before and after the stage.
\<close>

type_synonym Accounting = "ExecutionStepType \<Rightarrow> RowState list \<Rightarrow> RowState list \<Rightarrow> StepStats"

definition statsOf ::
    "Accounting \<Rightarrow> ExecutionStepType \<Rightarrow> RowState list \<Rightarrow> RowState list \<Rightarrow> StepStats" where
  "statsOf collapsed t before after =
     (if t = GROUP_BY \<or> t = DISTINCT then collapsed t before after else recount after)"

text \<open>
  Modelled from the spec: the simulator's snapshot of a stage, from the working set
  before and after it.
\<close>

definition snapshot :: "Accounting \<Rightarrow> PlannedStage \<Rightarrow> Working \<Rightarrow> Working \<Rightarrow> DataFlowStep" where
  "snapshot collapsed p w w' =
     \<lparr> stepOrder = PlannedStage.order p, stepType = PlannedStage.type p,
       rows = workingRows w', columns = workingColumns w',
       description = PlannedStage.description p,
       stats = statsOf collapsed (PlannedStage.type p) (workingRows w) (workingRows w') \<rparr>"

text \<open>
  Modelled from the spec: the stage simulator. It threads the working set through the
  stages in order and fails as a whole when one stage fails.
\<close>

fun simulate ::
    "Accounting \<Rightarrow> Engine \<Rightarrow> PlannedStage list \<Rightarrow> Working
      \<Rightarrow> ApiError + DataFlowStep list" where
  "simulate collapsed e [] w = Inr []"
| "simulate collapsed e (p # ps) w =
     (case runStage e (operands p) (clauseText p) w of
        Inl err \<Rightarrow> Inl err
      | Inr w' \<Rightarrow>
          (case simulate collapsed e ps w' of
             Inl err \<Rightarrow> Inl err
           | Inr steps \<Rightarrow> Inr (snapshot collapsed p w w' # steps)))"

text \<open>Modelled from the spec: the assembler's execution step for a planned stage.\<close>

definition toExecutionStep :: "PlannedStage \<Rightarrow> ExecutionStep" where
  "toExecutionStep p =
     \<lparr> ExecutionStep.order = PlannedStage.order p, ExecutionStep.type = PlannedStage.type p,
       clause = clauseText p, ExecutionStep.description = PlannedStage.description p \<rparr>"

text \<open>
  Modelled from the spec: the assembler's final result: the data of the last stage's
  included rows, projected to that stage's columns.
\<close>

definition finalResultOf :: "DataFlowStep list \<Rightarrow> TableData" where
  "finalResultOf steps =
     (case steps of
        [] \<Rightarrow> \<lparr> tableName = ''Query Result'', TableData.columns = [], TableData.rows = [] \<rparr>
      | _ \<Rightarrow>
          \<lparr> tableName = ''Query Result'',
            TableData.columns = DataFlowStep.columns (last steps),
            TableData.rows =
              map (\<lambda>r. project (DataFlowStep.columns (last steps)) (RowState.data r))
                (filter included (DataFlowStep.rows (last steps))) \<rparr>)"

text \<open>Modelled from the spec: the result assembler.\<close>

definition assemble ::
    "PlannedStage list \<Rightarrow> DataFlowStep list \<Rightarrow> string \<Rightarrow> QueryVisualization" where
  "assemble plannedStages dataFlowSteps baseQueryText =
     \<lparr> originalQuery = baseQueryText,
       executionSteps = map toExecutionStep plannedStages,
       dataFlow = dataFlowSteps,
       finalResult = finalResultOf dataFlowSteps \<rparr>"

text \<open>
  Modelled from the spec: the clause parser's scan over leading whitespace and comments
  (\<open>--\<close> to the end of the line, \<open>/*\<close> to \<open>*/\<close>): what
  the scan is in.
\<close>

datatype ScanMode = InCode | InLineComment | InBlockComment

text \<open>Modelled from the spec: the clause parser's whitespace characters.\<close>

definition isSpace :: "char \<Rightarrow> bool" where
  "isSpace c = (c = CHR '' '' \<or> c = CHR 0x09 \<or> c = CHR 0x0A \<or> c = CHR 0x0D)"

text \<open>
  Modelled from the spec: the clause parser's trimming: the statement without its
  leading whitespace and comments.
\<close>

fun skipTrivia :: "ScanMode \<Rightarrow> string \<Rightarrow> string" where
  "skipTrivia m [] = []"
| "skipTrivia InCode [c] = (if isSpace c then [] else [c])"
| "skipTrivia InCode (c # d # cs) =
     (if isSpace c then skipTrivia InCode (d # cs)
      else if c = CHR ''-'' \<and> d = CHR ''-'' then skipTrivia InLineComment cs
      else if c = CHR ''/'' \<and> d = CHR ''*'' then skipTrivia InBlockComment cs
      else c # d # cs)"
| "skipTrivia InLineComment (c # cs) =
     (if c = CHR 0x0A then skipTrivia InCode cs else skipTrivia InLineComment cs)"
| "skipTrivia InBlockComment [c] = []"
| "skipTrivia InBlockComment (c # d # cs) =
     (if c = CHR ''*'' \<and> d = CHR ''/'' then skipTrivia InCode cs
      else skipTrivia InBlockComment (d # cs))"

text \<open>Modelled from the spec: the clause parser's case folding of a keyword character.\<close>

definition lowerCase :: "char \<Rightarrow> char" where
  "lowerCase c =
     (if 65 \<le> (of_char c :: nat) \<and> (of_char c :: nat) \<le> 90
      then char_of ((of_char c :: nat) + 32) else c)"

text \<open>
  Modelled from the spec: the clause parser's check that a statement is a SELECT: a
  case-insensitive keyword check after trimming comments and whitespace. The check reads
  the first six characters that remain.
\<close>

definition isSelectStatement :: "string \<Rightarrow> bool" where
  "isSelectStatement sql = (map lowerCase (take 6 (skipTrivia InCode sql)) = ''select'')"

text \<open>Modelled from the spec: the clause parser's failure, \<open>SQL_PARSE_ERROR\<close>.\<close>

definition parseFailure :: "string \<Rightarrow> ApiError" where
  "parseFailure sql =
     \<lparr> ApiError.code = SQL_PARSE_ERROR, ApiError.message = sql, ApiError.details = None \<rparr>"

text \<open>
  Modelled from the spec: the clause parser. It rejects what is not a SELECT, and what
  the splitting into clauses, a parameter, cannot structure (\<open>None\<close>: more than
  one statement, no FROM).
\<close>

definition parse :: "(string \<Rightarrow> StructuredQuery option) \<Rightarrow> string \<Rightarrow> ApiError + StructuredQuery" where
  "parse splitClauses sql =
     (if \<not> isSelectStatement sql then Inl (parseFailure sql)
      else (case splitClauses sql of
              None \<Rightarrow> Inl (parseFailure sql)
            | Some q \<Rightarrow> Inr q))"

text \<open>Modelled from the spec: the engine's failure on a malformed request.\<close>

definition validationFailure :: ApiError where
  "validationFailure =
     \<lparr> ApiError.code = VALIDATION_ERROR,
       ApiError.message = ''sessionId and query are required'', ApiError.details = None \<rparr>"

text \<open>
  Modelled from the spec: the engine's \<open>visualize\<close>: validate the request,
  parse the query, plan it, simulate the plan from the empty working set and assemble
  the result. The session's engine is a parameter.
\<close>

definition visualize ::
    "(string \<Rightarrow> StructuredQuery option) \<Rightarrow> Accounting \<Rightarrow> Engine \<Rightarrow> string \<Rightarrow> string
      \<Rightarrow> ApiError + QueryVisualization" where
  "visualize splitClauses collapsed e sid query =
     (if sid = [] \<or> query = [] then Inl validationFailure
      else (case parse splitClauses query of
              Inl err \<Rightarrow> Inl err
            | Inr q \<Rightarrow>
                (case simulate collapsed e (plan q) \<lparr> workingRows = [], workingColumns = [] \<rparr> of
                   Inl err \<Rightarrow> Inl err
                 | Inr steps \<Rightarrow> Inr (assemble (plan q) steps query))))"

subsection \<open>Vocabulary for the engine's properties\<close>

text \<open>
  A row is \<open>marked\<close> when it carries a reason exactly if it is excluded; a row
  list is \<open>wellMarked\<close> when all its rows are.
\<close>

definition marked :: "RowState \<Rightarrow> bool" where
  "marked r = ((excludedReason r \<noteq> None) = (\<not> included r))"

definition wellMarked :: "RowState list \<Rightarrow> bool" where
  "wellMarked rs = (\<forall>r \<in> set rs. marked r)"

text \<open>
  The excluded rows of a row list, in order, and the reasons a step shows for them.
\<close>

definition excludedOf :: "RowState list \<Rightarrow> RowState list" where
  "excludedOf rs = filter (\<lambda>r. \<not> included r) rs"

definition excludedReasons :: "DataFlowStep \<Rightarrow> string option list" where
  "excludedReasons s = map excludedReason (excludedOf (DataFlowStep.rows s))"

text \<open>
  The stages that rebuild the physical row set (FROM, JOIN, GROUP BY, DISTINCT), as
  opposed to those that mark, project or reorder the rows they receive.
\<close>

definition rebuilds :: "ExecutionStepType \<Rightarrow> bool" where
  "rebuilds t = (t \<in> {FROM, JOIN, GROUP_BY, DISTINCT})"

text \<open>
  How a stage of type \<open>t\<close> carries the excluded rows it receives. A marking or
  sorting stage keeps each of them, unchanged in data and reason and in their order,
  among its own excluded rows. SELECT keeps every row in place with its inclusion flag
  and reason. A rebuilding stage carries no excluded row.
\<close>

definition carriedRows :: "ExecutionStepType \<Rightarrow> RowState list \<Rightarrow> RowState list \<Rightarrow> bool" where
  "carriedRows t before after =
     (if t \<in> {WHERE, HAVING, ORDER_BY, LIMIT, OFFSET}
      then subseq (excludedOf before) (excludedOf after)
      else if t = SELECT
      then map (\<lambda>r. (included r, excludedReason r)) after
           = map (\<lambda>r. (included r, excludedReason r)) before
      else excludedOf after = [])"

definition carried :: "DataFlowStep \<Rightarrow> DataFlowStep \<Rightarrow> bool" where
  "carried prev next = carriedRows (stepType next) (DataFlowStep.rows prev) (DataFlowStep.rows next)"

text \<open>A plan whose stages have the type of their operands.\<close>

definition typedStages :: "PlannedStage list \<Rightarrow> bool" where
  "typedStages ps = (\<forall>p \<in> set ps. PlannedStage.type p = typeOf (operands p))"


text \<open>The position of a stage type in the logical execution order.\<close>

definition positionOf :: "ExecutionStepType \<Rightarrow> nat" where
  "positionOf t = length (takeWhile (\<lambda>x. x \<noteq> t) EXECUTION_ORDER)"

text \<open>
  The fixed order with JOIN standing once for each of \<open>n\<close> joins.
\<close>

definition orderWithJoins :: "nat \<Rightarrow> ExecutionStepType list" where
  "orderWithJoins n =
     FROM # replicate n JOIN
     @ [WHERE, GROUP_BY, HAVING, SELECT, DISTINCT, ORDER_BY, LIMIT, OFFSET]"



subsection \<open>An example session\<close>

text \<open>
  The tables of the example session, the example queries, and an engine that evaluates
  just the predicates of these queries.
\<close>

definition usersTable :: "string list \<times> RowData list" where
  "usersTable =
     ([''id'', ''name'', ''age'', ''department_id''],
      [[(''id'', JNumber 1), (''name'', JString ''Alice''), (''age'', JNumber 30),
        (''department_id'', JNumber 1)],
       [(''id'', JNumber 2), (''name'', JString ''Bob''), (''age'', JNumber 20),
        (''department_id'', JNumber 1)],
       [(''id'', JNumber 3), (''name'', JString ''Charlie''), (''age'', JNumber 25),
        (''department_id'', JNumber 2)]])"

definition departmentsTable :: "string list \<times> RowData list" where
  "departmentsTable =
     ([''id'', ''title''],
      [[(''id'', JNumber 1), (''title'', JString ''Engineering'')],
       [(''id'', JNumber 2), (''title'', JString ''Marketing'')]])"

definition demoLe :: "JsonValue option \<Rightarrow> JsonValue option \<Rightarrow> bool" where
  "demoLe x y =
     (case (x, y) of
        (Some (JNumber a), Some (JNumber b)) \<Rightarrow> a \<le> b
      | (Some (JString (c # _)), Some (JString (d # _))) \<Rightarrow> (of_char c :: nat) \<le> of_char d
      | (Some (JString []), Some (JString _)) \<Rightarrow> True
      | (Some (JNumber _), Some (JString _)) \<Rightarrow> True
      | (None, _) \<Rightarrow> True
      | (Some JNull, _) \<Rightarrow> True
      | _ \<Rightarrow> False)"

definition demoEngine :: Engine where
  "demoEngine =
     \<lparr> scanTable =
         (\<lambda>t. if t = ''users'' then Some usersTable
              else if t = ''departments'' then Some departmentsTable
              else None),
       evaluatePredicate =
         (\<lambda>p r.
            if p = ''age > 21''
            then (case map_of r ''age'' of Some (JNumber a) \<Rightarrow> Some (21 < a) | _ \<Rightarrow> None)
            else if p = ''u.department_id = d.id''
            then (case (map_of r ''department_id'', map_of r ''d.id'') of
                    (Some a, Some b) \<Rightarrow> Some (a = b) | _ \<Rightarrow> None)
            else if p = ''d.id = m.id''
            then (case (map_of r ''d.id'', map_of r ''m.id'') of
                    (Some a, Some b) \<Rightarrow> Some (a = b) | _ \<Rightarrow> None)
            else None),
       evaluateAggregate =
         (\<lambda>p r.
            if p = ''COUNT(*) > 1''
            then (let n = length (filter (\<lambda>u. map_of u ''department_id'' = map_of r ''department_id'')
                                    (snd usersTable))
                  in Some (1 < n, if n = 1 then ''1'' else if n = 2 then ''2'' else ''3''))
            else None),
       valueLe = demoLe \<rparr>"

definition whereText :: string where
  "whereText = ''SELECT * FROM users WHERE age > 21 ORDER BY name''"

definition whereQuery :: StructuredQuery where
  "whereQuery =
     \<lparr> selectText = ''SELECT *'', selectList = None, selectDistinct = False,
       fromText = ''FROM users'', fromTable = ''users'', joins = [],
       whereClause = Some (''WHERE age > 21'', ''age > 21''),
       groupByClause = None, havingClause = None,
       orderByClause = Some (''ORDER BY name'', [(''name'', True)]),
       limitClause = None, offsetClause = None \<rparr>"

definition twoJoinText :: string where
  "twoJoinText =
     ''SELECT * FROM users u JOIN departments d ON u.department_id = d.id JOIN departments m ON d.id = m.id''"

definition twoJoinQuery :: StructuredQuery where
  "twoJoinQuery =
     \<lparr> selectText = ''SELECT *'', selectList = None, selectDistinct = False,
       fromText = ''FROM users u'', fromTable = ''users'',
       joins =
         [\<lparr> joinText = ''JOIN departments d ON u.department_id = d.id'', joinType = InnerJoin,
            joinTable = ''departments'', joinAlias = ''d'',
            onPredicate = ''u.department_id = d.id'' \<rparr>,
          \<lparr> joinText = ''JOIN departments m ON d.id = m.id'', joinType = InnerJoin,
            joinTable = ''departments'', joinAlias = ''m'', onPredicate = ''d.id = m.id'' \<rparr>],
       whereClause = None, groupByClause = None, havingClause = None,
       orderByClause = None, limitClause = None, offsetClause = None \<rparr>"

definition groupText :: string where
  "groupText =
     ''SELECT department_id FROM users GROUP BY department_id HAVING COUNT(*) > 1''"

definition groupQuery :: StructuredQuery where
  "groupQuery =
     \<lparr> selectText = ''SELECT department_id'', selectList = Some [''department_id''],
       selectDistinct = False, fromText = ''FROM users'', fromTable = ''users'', joins = [],
       whereClause = None,
       groupByClause = Some (''GROUP BY department_id'', [''department_id'']),
       havingClause = Some (''HAVING COUNT(*) > 1'', ''COUNT(*) > 1''),
       orderByClause = None, limitClause = None, offsetClause = None \<rparr>"

definition limitText :: string where
  "limitText = ''SELECT * FROM users LIMIT 2 OFFSET 1''"

definition limitQuery :: StructuredQuery where
  "limitQuery =
     \<lparr> selectText = ''SELECT *'', selectList = None, selectDistinct = False,
       fromText = ''FROM users'', fromTable = ''users'', joins = [],
       whereClause = None, groupByClause = None, havingClause = None, orderByClause = None,
       limitClause = Some (''LIMIT 2'', 2), offsetClause = Some (''OFFSET 1'', 1) \<rparr>"

definition distinctText :: string where
  "distinctText = ''SELECT DISTINCT department_id FROM users''"

definition distinctQuery :: StructuredQuery where
  "distinctQuery =
     \<lparr> selectText = ''SELECT DISTINCT department_id'', selectList = Some [''department_id''],
       selectDistinct = True, fromText = ''FROM users'', fromTable = ''users'', joins = [],
       whereClause = None, groupByClause = None, havingClause = None, orderByClause = None,
       limitClause = None, offsetClause = None \<rparr>"

definition missingTableText :: string where
  "missingTableText = ''select * from orders''"

definition missingTableQuery :: StructuredQuery where
  "missingTableQuery =
     \<lparr> selectText = ''select *'', selectList = None, selectDistinct = False,
       fromText = ''from orders'', fromTable = ''orders'', joins = [],
       whereClause = None, groupByClause = None, havingClause = None, orderByClause = None,
       limitClause = None, offsetClause = None \<rparr>"

definition badPredicateText :: string where
  "badPredicateText = ''SELECT * FROM users WHERE salary > 10''"

definition badPredicateQuery :: StructuredQuery where
  "badPredicateQuery =
     \<lparr> selectText = ''SELECT *'', selectList = None, selectDistinct = False,
       fromText = ''FROM users'', fromTable = ''users'', joins = [],
       whereClause = Some (''WHERE salary > 10'', ''salary > 10''),
       groupByClause = None, havingClause = None, orderByClause = None,
       limitClause = None, offsetClause = None \<rparr>"

text \<open>
  The example splitting into clauses knows the example queries. \<open>anySplit\<close>
  structures every text as the first example query: it leaves the rejection of what is
  no SELECT to the keyword check.
\<close>

definition demoSplit :: "string \<Rightarrow> StructuredQuery option" where
  "demoSplit text =
     (if text = whereText then Some whereQuery
      else if text = twoJoinText then Some twoJoinQuery
      else if text = groupText then Some groupQuery
      else if text = limitText then Some limitQuery
      else if text = distinctText then Some distinctQuery
      else if text = missingTableText then Some missingTableQuery
      else if text = badPredicateText then Some badPredicateQuery
      else None)"

definition anySplit :: "string \<Rightarrow> StructuredQuery option" where
  "anySplit text = Some whereQuery"

text \<open>
  An accounting for the collapsing stages, as the specification's DISTINCT example has
  it: the included rows that reached the stage, the rows that left it, and the rows
  removed between as excluded.
\<close>

definition prePost :: Accounting where
  "prePost t before after =
     \<lparr> totalRows = int (length (filter included before)),
       includedRows = int (length after),
       excludedRows = int (length (filter included before)) - int (length after) \<rparr>"

definition alice :: RowData where
  "alice = [(''id'', JNumber 1), (''name'', JString ''Alice''), (''age'', JNumber 30),
            (''department_id'', JNumber 1)]"

definition bob :: RowData where
  "bob = [(''id'', JNumber 2), (''name'', JString ''Bob''), (''age'', JNumber 20),
          (''department_id'', JNumber 1)]"

definition charlie :: RowData where
  "charlie = [(''id'', JNumber 3), (''name'', JString ''Charlie''), (''age'', JNumber 25),
              (''department_id'', JNumber 2)]"

definition bobExcluded :: RowState where
  "bobExcluded =
     \<lparr> RowState.data = bob, included = False,
       excludedReason = Some ''Does not match: age > 21'' \<rparr>"

definition whereSteps :: "DataFlowStep list" where
  "whereSteps =
     [\<lparr> stepOrder = 1, stepType = FROM,
        rows = [fresh alice, fresh bob, fresh charlie],
        columns = [''id'', ''name'', ''age'', ''department_id''],
        description = ''Load data from table(s)'',
        stats = \<lparr> totalRows = 3, includedRows = 3, excludedRows = 0 \<rparr> \<rparr>,
      \<lparr> stepOrder = 2, stepType = WHERE,
        rows = [fresh alice, bobExcluded, fresh charlie],
        columns = [''id'', ''name'', ''age'', ''department_id''],
        description = ''Filter rows based on conditions'',
        stats = \<lparr> totalRows = 3, includedRows = 2, excludedRows = 1 \<rparr> \<rparr>,
      \<lparr> stepOrder = 3, stepType = SELECT,
        rows = [fresh alice, bobExcluded, fresh charlie],
        columns = [''id'', ''name'', ''age'', ''department_id''],
        description = ''Choose which columns to include'',
        stats = \<lparr> totalRows = 3, includedRows = 2, excludedRows = 1 \<rparr> \<rparr>,
      \<lparr> stepOrder = 4, stepType = ORDER_BY,
        rows = [fresh alice, fresh charlie, bobExcluded],
        columns = [''id'', ''name'', ''age'', ''department_id''],
        description = ''Sort the result set'',
        stats = \<lparr> totalRows = 3, includedRows = 2, excludedRows = 1 \<rparr> \<rparr>]"

definition whereVis :: QueryVisualization where
  "whereVis =
     \<lparr> originalQuery = whereText,
       executionSteps =
         [\<lparr> ExecutionStep.order = 1, ExecutionStep.type = FROM, clause = ''FROM users'',
            ExecutionStep.description = ''Load data from table(s)'' \<rparr>,
          \<lparr> ExecutionStep.order = 2, ExecutionStep.type = WHERE, clause = ''WHERE age > 21'',
            ExecutionStep.description = ''Filter rows based on conditions'' \<rparr>,
          \<lparr> ExecutionStep.order = 3, ExecutionStep.type = SELECT, clause = ''SELECT *'',
            ExecutionStep.description = ''Choose which columns to include'' \<rparr>,
          \<lparr> ExecutionStep.order = 4, ExecutionStep.type = ORDER_BY, clause = ''ORDER BY name'',
            ExecutionStep.description = ''Sort the result set'' \<rparr>],
       dataFlow = whereSteps,
       finalResult =
         \<lparr> tableName = ''Query Result'',
           TableData.columns = [''id'', ''name'', ''age'', ''department_id''],
           TableData.rows = [alice, charlie] \<rparr> \<rparr>"

section \<open>Properties of the store\<close>

lemma call_keeps_range: "stepIndexInRange s \<Longrightarrow> stepIndexInRange (call c s)"
  by (cases c)
     (auto simp: stepIndexInRange_def selectTotalSteps_def nextStep_def prevStep_def
                 setVisualization_def split: option.splits)

lemma calls_keep_range: "stepIndexInRange s \<Longrightarrow> stepIndexInRange (calls cs s)"
  by (induction cs arbitrary: s) (simp_all add: call_keeps_range)

text \<open>
  C9. \<open>reset\<close> empties \<open>tables\<close> and \<open>tableData\<close>,
  clears \<open>erDiagram\<close>, \<open>visualization\<close>,
  \<open>executionError\<close> and \<open>executionMessage\<close>, puts
  \<open>currentStepIndex\<close> back to 0 and \<open>currentView\<close> to the setup
  view, and leaves \<open>sessionId\<close>, \<open>isSessionLoading\<close>,
  \<open>sessionError\<close>, \<open>setupSQL\<close>, \<open>querySQL\<close> and
  \<open>isExecuting\<close> as they were.
\<close>

theorem reset_frame:
  "AppState.tables (reset s) = [] \<and>
   tableData (reset s) = [] \<and>
   erDiagram (reset s) = None \<and>
   AppState.visualization (reset s) = None \<and>
   currentStepIndex (reset s) = 0 \<and>
   executionError (reset s) = None \<and>
   executionMessage (reset s) = None \<and>
   currentView (reset s) = Setup \<and>
   AppState.sessionId (reset s) = AppState.sessionId s \<and>
   isSessionLoading (reset s) = isSessionLoading s \<and>
   sessionError (reset s) = sessionError s \<and>
   setupSQL (reset s) = setupSQL s \<and>
   querySQL (reset s) = querySQL s \<and>
   isExecuting (reset s) = isExecuting s"
  by (simp add: reset_def)

text \<open>
  C8 (as amended). In a state with a loaded visualization of \<open>n\<close> data-flow
  steps and \<open>currentStepIndex\<close> in \<open>[0, n - 1]\<close>:
  \<open>nextStep\<close> adds exactly one to the index when it is below \<open>n -
  1\<close> and changes nothing otherwise, nor when no visualization is loaded;
  \<open>prevStep\<close> subtracts exactly one when the index is above 0 and changes
  nothing at 0; \<open>setVisualization\<close> puts the index back to 0. After any
  sequence of \<open>nextStep\<close>, \<open>prevStep\<close> and
  \<open>setVisualization\<close> calls the index is in \<open>[0, max 0 (m - 1)]\<close>,
  \<open>m\<close> being the number of steps of the visualization loaded then (0 when none
  is); so it is in \<open>[0, m - 1]\<close> whenever that visualization has at least one
  step.
\<close>

theorem step_index_navigation:
  assumes "AppState.visualization s = Some vis"
    and "0 \<le> currentStepIndex s"
    and "currentStepIndex s \<le> int (length (dataFlow vis)) - 1"
  shows "nextStep s =
           (if currentStepIndex s < int (length (dataFlow vis)) - 1
            then s\<lparr> currentStepIndex := currentStepIndex s + 1 \<rparr> else s)
       \<and> nextStep (s\<lparr> AppState.visualization := None \<rparr>) = s\<lparr> AppState.visualization := None \<rparr>
       \<and> prevStep s =
           (if 0 < currentStepIndex s
            then s\<lparr> currentStepIndex := currentStepIndex s - 1 \<rparr> else s)
       \<and> currentStepIndex (setVisualization v s) = 0
       \<and> stepIndexInRange (calls cs s)
       \<and> (\<forall>vis'. AppState.visualization (calls cs s) = Some vis' \<and> dataFlow vis' \<noteq> []
             \<longrightarrow> 0 \<le> currentStepIndex (calls cs s)
               \<and> currentStepIndex (calls cs s) \<le> int (length (dataFlow vis')) - 1)"
proof -
  have start: "stepIndexInRange s"
    using assms by (simp add: stepIndexInRange_def selectTotalSteps_def)
  have inv: "stepIndexInRange (calls cs s)"
    by (rule calls_keep_range [OF start])
  have loaded: "0 \<le> currentStepIndex (calls cs s)
       \<and> currentStepIndex (calls cs s) \<le> int (length (dataFlow vis')) - 1"
    if "AppState.visualization (calls cs s) = Some vis'" and "dataFlow vis' \<noteq> []" for vis'
  proof -
    from that(2) have "1 \<le> int (length (dataFlow vis'))"
      by (cases "dataFlow vis'") simp_all
    with inv that(1) show ?thesis
      by (auto simp: stepIndexInRange_def selectTotalSteps_def)
  qed
  show ?thesis
    using assms inv loaded
    by (simp add: nextStep_def prevStep_def setVisualization_def)
qed

theorem step_index_navigation_witness:
  "AppState.visualization demoState = Some twoStepVis
   \<and> 0 \<le> currentStepIndex demoState
   \<and> currentStepIndex demoState \<le> int (length (dataFlow twoStepVis)) - 1
   \<and> nextStep demoState = demoState\<lparr> currentStepIndex := 1 \<rparr>
   \<and> prevStep demoState = demoState
   \<and> stepIndexInRange (calls [NextStep, NextStep, PrevStep, SetVisualization (Some oneStepVis), NextStep] demoState)"
  using step_index_navigation [of demoState twoStepVis None
      "[NextStep, NextStep, PrevStep, SetVisualization (Some oneStepVis), NextStep]"]
  by (simp add: demoState_def twoStepVis_def oneStepVis_def nextStep_def prevStep_def
                setVisualization_def stepIndexInRange_def selectTotalSteps_def)

text \<open>
  Loading a visualization without any data-flow step leaves the index at 0, which is not
  in the empty range \<open>[0, -1]\<close>.
\<close>

theorem step_index_counterexample:
  "\<not> (0 \<le> currentStepIndex (calls [SetVisualization (Some noStepVis)] demoState)
      \<and> currentStepIndex (calls [SetVisualization (Some noStepVis)] demoState)
          \<le> selectTotalSteps (calls [SetVisualization (Some noStepVis)] demoState) - 1)"
  by (simp add: setVisualization_def selectTotalSteps_def noStepVis_def)

section \<open>Properties of the API client\<close>

lemma createAndStore_outcome:
  "outcome (createAndStore cfg be ls done) = Inr sid \<Longrightarrow>
     storage (createAndStore cfg be ls done) SESSION_STORAGE_KEY = Some sid"
  by (auto simp: createAndStore_def setItem_def split: prod.splits sum.splits option.splits)

lemma createAndStore_ok:
  "snd (createSession cfg be) = Inr (Some r) \<Longrightarrow>
     outcome (createAndStore cfg be ls done) = Inr (CreateSessionResponse.sessionId r)
   \<and> storage (createAndStore cfg be ls done)
       = ls(SESSION_STORAGE_KEY \<mapsto> CreateSessionResponse.sessionId r)
   \<and> effects (createAndStore cfg be ls done) = done @ fst (createSession cfg be)"
  by (auto simp: createAndStore_def setItem_def split: prod.splits sum.splits option.splits)

lemma request_sends_once:
  "fst (request cfg tr endpoint method body) ! 0 = Sent (case method of Some m' \<Rightarrow> m' | None \<Rightarrow> GET) endpoint
   \<and> (\<forall>m u. Sent m u \<in> set (fst (request cfg tr endpoint method body)) \<longrightarrow>
          m = (case method of Some m' \<Rightarrow> m' | None \<Rightarrow> GET) \<and> u = endpoint)"
  by (auto simp: request_def Let_def split: AxiosOutcome.splits option.splits if_splits)

text \<open>
  C10. When an id is stored and \<open>getSession\<close> succeeds on it,
  \<open>initSession\<close> returns that id, leaves the storage as it is and sends no
  \<open>POST\<close> (no session is created). Otherwise, when
  \<open>createSession\<close> answers with a session, \<open>initSession\<close> returns
  the new id and the storage is the old one with the stale id removed and the new id
  stored. An id that failed validation is gone from the storage even when
  \<open>createSession
\<close>
  fails. Whenever \<open>initSession\<close> returns an id, that id is the one stored under
  \<open>sql-viz-session-id\<close>.
\<close>

theorem initSession_returns_stored_id:
  fixes cfg be ls
  defines "res \<equiv> initSession cfg be ls"
  shows "(\<forall>sid. getItem ls SESSION_STORAGE_KEY = Some sid \<and> sid \<noteq> []
              \<and> (\<exists>y. snd (getSession cfg be sid) = Inr y)
            \<longrightarrow> outcome res = Inr sid \<and> storage res = ls
              \<and> effects res = fst (getSession cfg be sid)
              \<and> (\<forall>u. Sent POST u \<notin> set (effects res)))
       \<and> (\<forall>r. \<not> (\<exists>sid. getItem ls SESSION_STORAGE_KEY = Some sid \<and> sid \<noteq> []
                      \<and> (\<exists>y. snd (getSession cfg be sid) = Inr y))
              \<and> snd (createSession cfg be) = Inr (Some r)
            \<longrightarrow> outcome res = Inr (CreateSessionResponse.sessionId r)
              \<and> storage res
                  = setItem (removeItem ls SESSION_STORAGE_KEY) SESSION_STORAGE_KEY
                      (CreateSessionResponse.sessionId r)
              \<and> Sent POST ''/api/sessions'' \<in> set (effects res))
       \<and> (\<forall>sid. getItem ls SESSION_STORAGE_KEY = Some sid \<and> sid \<noteq> []
              \<and> (\<exists>e. snd (getSession cfg be sid) = Inl e)
              \<and> (\<forall>r. snd (createSession cfg be) \<noteq> Inr (Some r))
            \<longrightarrow> (\<exists>f. outcome res = Inl f) \<and> getStoredSessionId (storage res) = None)
       \<and> (\<forall>sid. outcome res = Inr sid \<longrightarrow> getStoredSessionId (storage res) = Some sid)"
proof (intro conjI allI impI)
  fix sid
  assume "getItem ls SESSION_STORAGE_KEY = Some sid \<and> sid \<noteq> [] \<and> (\<exists>y. snd (getSession cfg be sid) = Inr y)"
  then have a: "getItem ls SESSION_STORAGE_KEY = Some sid" "sid \<noteq> []"
        and b: "\<exists>fx y. getSession cfg be sid = (fx, Inr y)"
    by (auto, metis prod.collapse)
  from b obtain fx y where g: "getSession cfg be sid = (fx, Inr y)" by blast
  have nopost: "Sent POST u \<notin> set fx" for u
    using request_sends_once [of cfg "sessionEndpoint be" "''/api/sessions/'' @ sid" None None] g
    by (auto simp: getSession_def)
  show "outcome res = Inr sid" "storage res = ls" "effects res = fst (getSession cfg be sid)"
    using a g by (simp_all add: res_def initSession_def)
  show "Sent POST u \<notin> set (effects res)" for u
    using a g nopost by (simp add: res_def initSession_def)
next
  fix r
  assume h: "\<not> (\<exists>sid. getItem ls SESSION_STORAGE_KEY = Some sid \<and> sid \<noteq> []
                      \<and> (\<exists>y. snd (getSession cfg be sid) = Inr y))
              \<and> snd (createSession cfg be) = Inr (Some r)"
  then have c: "snd (createSession cfg be) = Inr (Some r)" by simp
  have sent: "Sent POST ''/api/sessions'' \<in> set (fst (createSession cfg be))"
    by (auto simp: createSession_def request_def Let_def split: AxiosOutcome.splits option.splits)
  have res_eq: "res = createAndStore cfg be ls []
      \<or> (\<exists>fx. res = createAndStore cfg be (removeItem ls SESSION_STORAGE_KEY) fx)"
    using h by (auto simp: res_def initSession_def split: option.splits prod.splits sum.splits)
  show "outcome res = Inr (CreateSessionResponse.sessionId r)"
    using res_eq createAndStore_ok [OF c] by auto
  show "storage res = setItem (removeItem ls SESSION_STORAGE_KEY) SESSION_STORAGE_KEY
                      (CreateSessionResponse.sessionId r)"
    using res_eq createAndStore_ok [OF c] by (auto simp: setItem_def removeItem_def)
  show "Sent POST ''/api/sessions'' \<in> set (effects res)"
    using res_eq createAndStore_ok [OF c] sent by auto
next
  fix sid
  assume h: "getItem ls SESSION_STORAGE_KEY = Some sid \<and> sid \<noteq> []
              \<and> (\<exists>e. snd (getSession cfg be sid) = Inl e)
              \<and> (\<forall>r. snd (createSession cfg be) \<noteq> Inr (Some r))"
  then obtain fx e where g: "getSession cfg be sid = (fx, Inl e)"
    by (metis prod.collapse)
  have "res = createAndStore cfg be (removeItem ls SESSION_STORAGE_KEY) fx"
    using h g by (simp add: res_def initSession_def)
  moreover have "(\<exists>f. outcome (createAndStore cfg be (removeItem ls SESSION_STORAGE_KEY) fx) = Inl f)
     \<and> storage (createAndStore cfg be (removeItem ls SESSION_STORAGE_KEY) fx) = removeItem ls SESSION_STORAGE_KEY"
    using h by (auto simp: createAndStore_def split: prod.splits sum.splits option.splits)
  ultimately show "(\<exists>f. outcome res = Inl f)" "getStoredSessionId (storage res) = None"
    by (simp_all add: getStoredSessionId_def getItem_def removeItem_def)
next
  fix sid
  assume o: "outcome res = Inr sid"
  show "getStoredSessionId (storage res) = Some sid"
  proof (cases "getItem ls SESSION_STORAGE_KEY")
    case None
    then show ?thesis
      using o createAndStore_outcome [of cfg be ls "[]" sid]
      by (simp add: res_def initSession_def getStoredSessionId_def getItem_def)
  next
    case (Some existing)
    show ?thesis
    proof (cases "existing = []")
      case True
      then show ?thesis
        using Some o createAndStore_outcome [of cfg be ls "[]" sid]
        by (simp add: res_def initSession_def getStoredSessionId_def getItem_def)
    next
      case False
      obtain fx v where g: "getSession cfg be existing = (fx, v)" by (cases "getSession cfg be existing")
      show ?thesis
      proof (cases v)
        case (Inr y)
        then show ?thesis
          using Some False g o
          by (simp add: res_def initSession_def getStoredSessionId_def getItem_def)
      next
        case (Inl e)
        then show ?thesis
          using Some False g o
            createAndStore_outcome [of cfg be "removeItem ls SESSION_STORAGE_KEY" fx sid]
          by (simp add: res_def initSession_def getStoredSessionId_def getItem_def)
      qed
    qed
  qed
qed

theorem initSession_returns_stored_id_witness:
  "getItem validStorage SESSION_STORAGE_KEY = Some ''s-1''
   \<and> outcome (initSession config demoBackend validStorage) = Inr ''s-1''
   \<and> storage (initSession config demoBackend validStorage) = validStorage
   \<and> getItem staleStorage SESSION_STORAGE_KEY = Some ''expired''
   \<and> outcome (initSession config demoBackend staleStorage) = Inr ''s-2''
   \<and> getStoredSessionId (storage (initSession config demoBackend staleStorage)) = Some ''s-2''"
proof -
  have valid: "getItem validStorage SESSION_STORAGE_KEY = Some ''s-1'' \<and> ''s-1'' \<noteq> []
      \<and> (\<exists>y. snd (getSession config demoBackend ''s-1'') = Inr y)"
    by (simp add: validStorage_def getItem_def getSession_def request_def demoBackend_def
          okResponse_def Let_def)
  have stale: "getItem staleStorage SESSION_STORAGE_KEY = Some ''expired''"
    by (simp add: staleStorage_def getItem_def)
  have gone: "\<not> (\<exists>y. snd (getSession config demoBackend ''expired'') = Inr y)"
    by (simp add: getSession_def request_def demoBackend_def errorResponse_def Let_def)
  have fresh: "snd (createSession config demoBackend) = Inr (Some \<lparr> CreateSessionResponse.sessionId = ''s-2'' \<rparr>)"
    by (simp add: createSession_def request_def demoBackend_def okResponse_def Let_def)
  have kept: "outcome (initSession config demoBackend validStorage) = Inr ''s-1''
      \<and> storage (initSession config demoBackend validStorage) = validStorage"
    using initSession_returns_stored_id [of validStorage config demoBackend] valid by blast
  have created: "outcome (initSession config demoBackend staleStorage) = Inr ''s-2''"
    using initSession_returns_stored_id [of staleStorage config demoBackend] stale gone fresh
    by auto
  have stored: "getStoredSessionId (storage (initSession config demoBackend staleStorage))
      = Some ''s-2''"
    using initSession_returns_stored_id [of staleStorage config demoBackend] created by blast
  show ?thesis
    using valid stale kept created stored by simp
qed

section \<open>Properties of the planner\<close>

lemma numbered_length [simp]: "length (numbered i xs) = length xs"
  by (induction i xs rule: numbered.induct) simp_all

lemma numbered_nth:
  "k < length xs \<Longrightarrow>
     numbered i xs ! k =
       \<lparr> PlannedStage.order = i + int k, PlannedStage.type = typeOf (snd (xs ! k)),
         clauseText = fst (xs ! k),
         PlannedStage.description = STEP_DESCRIPTIONS (typeOf (snd (xs ! k))),
         operands = snd (xs ! k) \<rparr>"
proof (induction i xs arbitrary: k rule: numbered.induct)
  case (1 i)
  then show ?case by simp
next
  case (2 i t ops rest)
  then show ?case by (cases k) simp_all
qed


lemma numbered_typed: "p \<in> set (numbered i xs) \<Longrightarrow> PlannedStage.type p = typeOf (operands p)"
  by (induction i xs rule: numbered.induct) auto








section \<open>Properties of the stage simulator\<close>

lemma those_map_Some:
  "those (map f xs) = Some ys \<Longrightarrow> list_all2 (\<lambda>x y. f x = Some y) xs ys"
proof (induction xs arbitrary: ys)
  case Nil
  then show ?case by simp
next
  case (Cons x xs)
  then show ?case by (auto split: option.splits)
qed

lemma firstOfEachKey_subseq: "subseq (firstOfEachKey key seen xs) xs"
  by (induction key seen xs rule: firstOfEachKey.induct) auto

lemma firstOfEachKey_set: "set (firstOfEachKey key seen xs) \<subseteq> set xs"
  by (induction key seen xs rule: firstOfEachKey.induct) auto

lemma insertSorted_set [simp]: "set (insertSorted le x xs) = insert x (set xs)"
  by (induction xs) auto

lemma stableSort_set [simp]: "set (stableSort le xs) = set xs"
  by (induction xs) (simp_all add: stableSort_def)

lemma insertSorted_length [simp]: "length (insertSorted le x xs) = Suc (length xs)"
  by (induction xs) auto

lemma stableSort_length [simp]: "length (stableSort le xs) = length xs"
  by (induction xs) (simp_all add: stableSort_def)

lemma markWindow_length [simp]: "length (markWindow inside i rs) = length rs"
  by (induction inside i rs rule: markWindow.induct) simp_all

lemma markWindow_excluded:
  "subseq (filter (\<lambda>r. \<not> included r) rs) (filter (\<lambda>r. \<not> included r) (markWindow inside i rs))"
  by (induction inside i rs rule: markWindow.induct) (auto simp: exclude_def)

lemma marked_fresh [simp]: "marked (fresh d)"
  by (simp add: marked_def fresh_def)

lemma marked_exclude [simp]: "marked (exclude reason r)"
  by (simp add: marked_def exclude_def)

lemma marked_data [simp]: "marked (r\<lparr> RowState.data := d \<rparr>) = marked r"
  by (simp add: marked_def)

lemma wellMarked_subset: "set rs' \<subseteq> set rs \<Longrightarrow> wellMarked rs \<Longrightarrow> wellMarked rs'"
  by (auto simp: wellMarked_def)

lemma firstOfEachKey_filter_set:
  "set (firstOfEachKey key seen (filter P xs)) \<subseteq> set xs"
  using firstOfEachKey_set [of key seen "filter P xs"] by auto

lemma markWindow_wellMarked: "wellMarked rs \<Longrightarrow> wellMarked (markWindow inside i rs)"
  by (induction inside i rs rule: markWindow.induct) (auto simp: wellMarked_def)

lemma marking_wellMarked:
  assumes "list_all2 (\<lambda>x y. y = x \<or> (\<exists>reason. y = exclude reason x)) rs rs'"
    and "wellMarked rs"
  shows "wellMarked rs'"
  using assms
  by (induction rule: list_all2_induct) (auto simp: wellMarked_def)

lemma marking_excluded:
  assumes "list_all2 (\<lambda>x y. y = x \<or> (included x \<and> (\<exists>reason. y = exclude reason x))) rs rs'"
  shows "subseq (filter (\<lambda>r. \<not> included r) rs) (filter (\<lambda>r. \<not> included r) rs')"
  using assms
  by (induction rule: list_all2_induct) (auto simp: exclude_def)

lemma whereRow_marks:
  "whereRow holds p x = Some y \<Longrightarrow> y = x \<or> (included x \<and> (\<exists>reason. y = exclude reason x))"
  by (auto simp: whereRow_def split: if_splits option.splits bool.splits)

lemma havingRow_marks:
  "havingRow agg p x = Some y \<Longrightarrow> y = x \<or> (included x \<and> (\<exists>reason. y = exclude reason x))"
  by (auto simp: havingRow_def split: if_splits option.splits bool.splits prod.splits)

lemma whereStage_marks:
  assumes "whereStage holds p txt w = Inr w'"
  shows "list_all2 (\<lambda>x y. y = x \<or> (included x \<and> (\<exists>reason. y = exclude reason x)))
           (workingRows w) (workingRows w')"
    and "workingColumns w' = workingColumns w"
proof -
  from assms obtain rs where t: "those (map (whereRow holds p) (workingRows w)) = Some rs"
    and w': "w' = w\<lparr> workingRows := rs \<rparr>"
    by (auto simp: whereStage_def split: option.splits)
  from those_map_Some [OF t] have "list_all2 (\<lambda>x y. whereRow holds p x = Some y) (workingRows w) rs" .
  then show "list_all2 (\<lambda>x y. y = x \<or> (included x \<and> (\<exists>reason. y = exclude reason x)))
           (workingRows w) (workingRows w')"
    using w' by (auto elim!: list_all2_mono dest: whereRow_marks)
  show "workingColumns w' = workingColumns w" using w' by simp
qed

lemma havingStage_marks:
  assumes "havingStage agg p txt w = Inr w'"
  shows "list_all2 (\<lambda>x y. y = x \<or> (included x \<and> (\<exists>reason. y = exclude reason x)))
           (workingRows w) (workingRows w')"
    and "workingColumns w' = workingColumns w"
proof -
  from assms obtain rs where t: "those (map (havingRow agg p) (workingRows w)) = Some rs"
    and w': "w' = w\<lparr> workingRows := rs \<rparr>"
    by (auto simp: havingStage_def split: option.splits)
  from those_map_Some [OF t] have "list_all2 (\<lambda>x y. havingRow agg p x = Some y) (workingRows w) rs" .
  then show "list_all2 (\<lambda>x y. y = x \<or> (included x \<and> (\<exists>reason. y = exclude reason x)))
           (workingRows w) (workingRows w')"
    using w' by (auto elim!: list_all2_mono dest: havingRow_marks)
  show "workingColumns w' = workingColumns w" using w' by simp
qed

lemma runStage_wellMarked:
  assumes "runStage e ops txt w = Inr w'" and "wellMarked (workingRows w)"
  shows "wellMarked (workingRows w')"
proof (cases ops)
  case (FromOp t)
  with assms show ?thesis
    by (auto simp: fromStage_def wellMarked_def split: option.splits)
next
  case (JoinOp jt t a p)
  with assms show ?thesis
    by (auto simp: joinStage_def Let_def wellMarked_def split: option.splits)
next
  case (WhereOp p)
  with assms have "whereStage (evaluatePredicate e p) p txt w = Inr w'" by simp
  from whereStage_marks(1) [OF this] assms(2) show ?thesis
    by (auto intro!: marking_wellMarked [where rs = "workingRows w"] elim!: list_all2_mono)
next
  case (GroupByOp cs)
  with assms have "workingRows w' = firstOfEachKey (keyOf cs) [] (filter included (workingRows w))"
    by (auto simp: groupByStage_def split: if_splits)
  then show ?thesis
    using wellMarked_subset [OF firstOfEachKey_filter_set assms(2)] by simp
next
  case (HavingOp p)
  with assms have "havingStage (evaluateAggregate e p) p txt w = Inr w'" by simp
  from havingStage_marks(1) [OF this] assms(2) show ?thesis
    by (auto intro!: marking_wellMarked [where rs = "workingRows w"] elim!: list_all2_mono)
next
  case (SelectOp sel)
  with assms show ?thesis
    by (auto simp: selectStage_def wellMarked_def split: option.splits if_splits)
next
  case DistinctOp
  with assms have "workingRows w'
      = firstOfEachKey (keyOf (workingColumns w)) [] (filter included (workingRows w))"
    by (auto simp: distinctStage_def)
  then show ?thesis
    using wellMarked_subset [OF firstOfEachKey_filter_set assms(2)] by simp
next
  case (OrderByOp ks)
  with assms show ?thesis
    by (auto simp: orderByStage_def wellMarked_def split: if_splits)
next
  case (LimitOp n k)
  with assms show ?thesis
    by (auto simp: limitStage_def intro: markWindow_wellMarked)
next
  case (OffsetOp k)
  with assms show ?thesis
    by (auto simp: offsetStage_def intro: markWindow_wellMarked)
qed

lemma excludedOf_firstOfEachKey [simp]:
  "excludedOf (firstOfEachKey key seen (filter included rs)) = []"
  using firstOfEachKey_set [of key seen "filter included rs"]
  by (auto simp: excludedOf_def filter_empty_conv)

lemma excludedOf_append [simp]: "excludedOf (xs @ ys) = excludedOf xs @ excludedOf ys"
  by (simp add: excludedOf_def)

lemma excludedOf_fresh [simp]: "excludedOf (map fresh ds) = []"
  by (simp add: excludedOf_def filter_empty_conv fresh_def)

lemma excludedOf_sorted [simp]: "excludedOf (stableSort le (filter included rs)) = []"
  by (simp add: excludedOf_def filter_empty_conv)

lemma excludedOf_excluded [simp]: "excludedOf (filter (\<lambda>r. \<not> included r) rs) = excludedOf rs"
  by (simp add: excludedOf_def)

lemma runStage_carries:
  assumes "runStage e ops txt w = Inr w'"
  shows "carriedRows (typeOf ops) (workingRows w) (workingRows w')"
proof (cases ops)
  case (FromOp t)
  with assms show ?thesis
    by (auto simp: fromStage_def carriedRows_def split: option.splits)
next
  case (JoinOp jt t a p)
  with assms show ?thesis
    by (auto simp: joinStage_def Let_def carriedRows_def split: option.splits)
next
  case (WhereOp p)
  with assms have "whereStage (evaluatePredicate e p) p txt w = Inr w'" by simp
  from marking_excluded [OF whereStage_marks(1) [OF this]] WhereOp show ?thesis
    by (simp add: carriedRows_def excludedOf_def)
next
  case (GroupByOp cs)
  with assms show ?thesis
    by (auto simp: groupByStage_def carriedRows_def split: if_splits)
next
  case (HavingOp p)
  with assms have "havingStage (evaluateAggregate e p) p txt w = Inr w'" by simp
  from marking_excluded [OF havingStage_marks(1) [OF this]] HavingOp show ?thesis
    by (simp add: carriedRows_def excludedOf_def)
next
  case (SelectOp sel)
  with assms show ?thesis
    by (auto simp: selectStage_def carriedRows_def comp_def split: option.splits if_splits)
next
  case DistinctOp
  with assms show ?thesis
    by (auto simp: distinctStage_def carriedRows_def)
next
  case (OrderByOp ks)
  with assms show ?thesis
    by (auto simp: orderByStage_def carriedRows_def split: if_splits)
next
  case (LimitOp n k)
  with assms show ?thesis
    using markWindow_excluded [of "workingRows w" "\<lambda>i. i < k + n" 0]
    by (auto simp: limitStage_def carriedRows_def excludedOf_def)
next
  case (OffsetOp k)
  with assms show ?thesis
    using markWindow_excluded [of "workingRows w" "\<lambda>i. k \<le> i" 0]
    by (auto simp: offsetStage_def carriedRows_def excludedOf_def)
qed

lemma simulate_length: "simulate acc e ps w = Inr steps \<Longrightarrow> length steps = length ps"
  by (induction ps arbitrary: w steps) (auto split: sum.splits)

lemma simulate_nth:
  "simulate acc e ps w = Inr steps \<Longrightarrow> i < length ps \<Longrightarrow>
     stepOrder (steps ! i) = PlannedStage.order (ps ! i)
   \<and> stepType (steps ! i) = PlannedStage.type (ps ! i)"
proof (induction ps arbitrary: w steps i)
  case Nil
  then show ?case by simp
next
  case (Cons p ps)
  then show ?case
    by (cases i) (auto simp: snapshot_def split: sum.splits)
qed

lemma simulate_wellMarked:
  "simulate acc e ps w = Inr steps \<Longrightarrow> wellMarked (workingRows w) \<Longrightarrow> s \<in> set steps \<Longrightarrow>
     wellMarked (DataFlowStep.rows s)"
proof (induction ps arbitrary: w steps)
  case Nil
  then show ?case by simp
next
  case (Cons p ps)
  from Cons.prems(1) obtain w' rest where
    r: "runStage e (operands p) (clauseText p) w = Inr w'"
    and s: "simulate acc e ps w' = Inr rest"
    and st: "steps = snapshot acc p w w' # rest"
    by (auto split: sum.splits)
  have m: "wellMarked (workingRows w')"
    by (rule runStage_wellMarked [OF r Cons.prems(2)])
  from Cons.prems(3) st consider "s = snapshot acc p w w'" | "s \<in> set rest" by auto
  then show ?case
  proof cases
    case 1
    then show ?thesis using m by (simp add: snapshot_def)
  next
    case 2
    then show ?thesis by (rule Cons.IH [OF s m])
  qed
qed

lemma simulate_carried:
  "simulate acc e ps w = Inr steps \<Longrightarrow> typedStages ps \<Longrightarrow>
     (steps \<noteq> [] \<longrightarrow> carriedRows (stepType (hd steps)) (workingRows w) (DataFlowStep.rows (hd steps)))
   \<and> (\<forall>i. Suc i < length steps \<longrightarrow> carried (steps ! i) (steps ! Suc i))"
proof (induction ps arbitrary: w steps)
  case Nil
  then show ?case by simp
next
  case (Cons p ps)
  from Cons.prems(1) obtain w' rest where
    r: "runStage e (operands p) (clauseText p) w = Inr w'"
    and s: "simulate acc e ps w' = Inr rest"
    and st: "steps = snapshot acc p w w' # rest"
    by (auto split: sum.splits)
  have tp: "PlannedStage.type p = typeOf (operands p)" and tps: "typedStages ps"
    using Cons.prems(2) by (simp_all add: typedStages_def)
  have first: "carriedRows (stepType (hd steps)) (workingRows w) (DataFlowStep.rows (hd steps))"
    using runStage_carries [OF r] st tp by (simp add: snapshot_def)
  from Cons.IH [OF s tps] have
    ih1: "rest \<noteq> [] \<longrightarrow> carriedRows (stepType (hd rest)) (workingRows w') (DataFlowStep.rows (hd rest))"
    and ih2: "\<forall>i. Suc i < length rest \<longrightarrow> carried (rest ! i) (rest ! Suc i)"
    by simp_all
  have "carried (steps ! i) (steps ! Suc i)" if "Suc i < length steps" for i
  proof (cases i)
    case 0
    with that st have ne: "rest \<noteq> []" by auto
    then have "rest ! 0 = hd rest" by (simp add: hd_conv_nth)
    with ih1 ne 0 st show ?thesis
      by (simp add: carried_def snapshot_def)
  next
    case (Suc j)
    with that st ih2 show ?thesis by simp
  qed
  with first show ?case by simp
qed










section \<open>The example session, evaluated\<close>

lemma visualize_whereText: "visualize demoSplit prePost demoEngine ''s-1'' whereText = Inr whereVis"
  by code_simp

text \<open>
  The model on the specification's examples: GROUP BY with HAVING over departments 1, 1
  and 2 leaves one of two groups; LIMIT 2 OFFSET 1 over three rows excludes the first
  and returns two; DISTINCT over departments 1, 1 and 2 gives a row list shorter than
  its input and, with the accounting above, statistics that count the removed duplicate
  as excluded.
\<close>

lemma example_group_having:
  "map_sum Fun.id
     (\<lambda>v. (map ExecutionStep.type (executionSteps v),
           map (\<lambda>s. length (DataFlowStep.rows s)) (dataFlow v),
           map excludedReasons (dataFlow v),
           TableData.rows (finalResult v)))
     (visualize demoSplit prePost demoEngine ''s-1'' groupText)
   = Inr ([FROM, GROUP_BY, HAVING, SELECT],
          [3, 2, 2, 2],
          [[], [], [Some ''Does not match: COUNT(*) > 1 (actual: 1)''],
           [Some ''Does not match: COUNT(*) > 1 (actual: 1)'']],
          [[(''department_id'', JNumber 1)]])"
  by code_simp

lemma example_limit_offset:
  "map_sum Fun.id
     (\<lambda>v. (map ExecutionStep.type (executionSteps v),
           map (\<lambda>s. map included (DataFlowStep.rows s)) (dataFlow v),
           map excludedReasons (dataFlow v),
           TableData.rows (finalResult v)))
     (visualize demoSplit prePost demoEngine ''s-1'' limitText)
   = Inr ([FROM, SELECT, LIMIT, OFFSET],
          [[True, True, True], [True, True, True], [True, True, True], [False, True, True]],
          [[], [], [], [Some ''Excluded by LIMIT/OFFSET'']],
          [bob, charlie])"
  by code_simp

lemma example_distinct:
  "map_sum Fun.id
     (\<lambda>v. (map stepType (dataFlow v),
           map (\<lambda>s. length (DataFlowStep.rows s)) (dataFlow v),
           map (\<lambda>s. (totalRows (stats s), includedRows (stats s), excludedRows (stats s)))
             (dataFlow v),
           TableData.rows (finalResult v)))
     (visualize demoSplit prePost demoEngine ''s-1'' distinctText)
   = Inr ([FROM, SELECT, DISTINCT],
          [3, 3, 2],
          [(3, 3, 0), (3, 3, 0), (3, 2, 1)],
          [[(''department_id'', JNumber 1)], [(''department_id'', JNumber 2)]])"
  by code_simp

text \<open>
  A query with two joins emits a JOIN stage for each: the positions in the fixed order do
  not decrease, and the sequence is a subsequence of the fixed order once the two JOIN
  stages are taken as the one JOIN of that order, not before.
\<close>

lemma example_two_joins:
  "map_sum Fun.id (map stepType \<circ> dataFlow)
     (visualize demoSplit prePost demoEngine ''s-1'' twoJoinText) = Inr [FROM, JOIN, JOIN, SELECT]
   \<and> map positionOf [FROM, JOIN, JOIN, SELECT] = [0, 1, 1, 5]
   \<and> subseq [FROM, JOIN, JOIN, SELECT] (orderWithJoins 2)
   \<and> remdups_adj [FROM, JOIN, JOIN, SELECT] = [FROM, JOIN, SELECT]
   \<and> \<not> subseq [FROM, JOIN, JOIN, SELECT] EXECUTION_ORDER"
  by code_simp

text \<open>
  The keyword check skips leading whitespace and comments and ignores case. A request
  without session id, a statement that is no SELECT, a table the engine does not have and
  a predicate over a column the rows do not have each fail with their own error.
\<close>

lemma example_keyword_check:
  "isSelectStatement whereText
   \<and> isSelectStatement missingTableText
   \<and> isSelectStatement ''  -- a comment
  /* another */ Select 1''
   \<and> \<not> isSelectStatement ''DROP TABLE users''
   \<and> \<not> isSelectStatement ''-- SELECT * FROM users''"
  by code_simp

lemma example_failures:
  "visualize demoSplit prePost demoEngine [] whereText = Inl validationFailure
   \<and> visualize anySplit prePost demoEngine ''s-1'' ''DROP TABLE users''
       = Inl (parseFailure ''DROP TABLE users'')
   \<and> visualize demoSplit prePost demoEngine ''s-1'' missingTableText
       = Inl (stageFailure ''from orders'')
   \<and> visualize demoSplit prePost demoEngine ''s-1'' badPredicateText
       = Inl (stageFailure ''WHERE salary > 10'')"
  by code_simp

section \<open>Properties of a visualization\<close>

lemma visualize_Inr:
  assumes "visualize split acc e sid query = Inr v"
  obtains q steps where "split query = Some q"
    and "simulate acc e (plan q) \<lparr> workingRows = [], workingColumns = [] \<rparr> = Inr steps"
    and "v = assemble (plan q) steps query"
  using assms
  by (auto simp: visualize_def parse_def split: if_splits option.splits sum.splits)

lemma plan_length: "length (plan q) = length (stagesOf q)"
  by (simp add: plan_def)

lemma plan_nonempty: "plan q \<noteq> []"
  by (simp add: plan_def stagesOf_def)

lemma plan_order: "i < length (plan q) \<Longrightarrow> PlannedStage.order (plan q ! i) = int i + 1"
  by (simp add: plan_def numbered_nth)

lemma plan_typed: "typedStages (plan q)"
  by (auto simp: typedStages_def plan_def dest: numbered_typed)

lemma wellMarked_Nil: "wellMarked []"
  by (simp add: wellMarked_def)

text \<open>
  C1. For every query that is visualized, the data flow has a last step, and
  \<open>finalResult.rows\<close> is exactly the data of the rows marked included in that
  step, in their order, each projected to the step's columns;
  \<open>finalResult.columns\<close> are the step's columns. So no excluded row appears in
  \<open>finalResult\<close> and every included row of the last stage does; the visualizer's
  final-result table shows these rows, each as included.
\<close>

theorem finalResult_is_last_included:
  assumes "visualize split acc e sid query = Inr v"
  shows "dataFlow v \<noteq> []
       \<and> TableData.rows (finalResult v)
           = map (\<lambda>r. project (DataFlowStep.columns (last (dataFlow v))) (RowState.data r))
               (filter included (DataFlowStep.rows (last (dataFlow v))))
       \<and> TableData.columns (finalResult v) = DataFlowStep.columns (last (dataFlow v))
       \<and> finalResultTableRows v
           = map (\<lambda>r. fresh (project (DataFlowStep.columns (last (dataFlow v))) (RowState.data r)))
               (filter included (DataFlowStep.rows (last (dataFlow v))))
       \<and> (\<forall>d \<in> set (TableData.rows (finalResult v)).
             \<exists>r \<in> set (DataFlowStep.rows (last (dataFlow v))).
               included r \<and> d = project (DataFlowStep.columns (last (dataFlow v))) (RowState.data r))
       \<and> (\<forall>r \<in> set (DataFlowStep.rows (last (dataFlow v))).
             included r \<longrightarrow>
               project (DataFlowStep.columns (last (dataFlow v))) (RowState.data r)
                 \<in> set (TableData.rows (finalResult v)))"
proof -
  from assms obtain q steps where
    s: "simulate acc e (plan q) \<lparr> workingRows = [], workingColumns = [] \<rparr> = Inr steps"
    and v: "v = assemble (plan q) steps query"
    by (rule visualize_Inr)
  have "length steps = length (plan q)"
    by (rule simulate_length [OF s])
  then have ne: "steps \<noteq> []"
    using plan_nonempty [of q] by auto
  then obtain x xs where "steps = x # xs"
    by (cases steps) auto
  then have f: "finalResultOf steps =
      \<lparr> tableName = ''Query Result'',
        TableData.columns = DataFlowStep.columns (last steps),
        TableData.rows =
          map (\<lambda>r. project (DataFlowStep.columns (last steps)) (RowState.data r))
            (filter included (DataFlowStep.rows (last steps))) \<rparr>"
    by (simp add: finalResultOf_def)
  show ?thesis
    using ne by (auto simp: v assemble_def f finalResultTableRows_def fresh_def comp_def)
qed

theorem finalResult_is_last_included_witness:
  "visualize demoSplit prePost demoEngine ''s-1'' whereText = Inr whereVis
   \<and> TableData.rows (finalResult whereVis) = [alice, charlie]
   \<and> filter included (DataFlowStep.rows (last (dataFlow whereVis))) = [fresh alice, fresh charlie]"
  using finalResult_is_last_included [OF visualize_whereText] visualize_whereText
  by (simp add: whereVis_def whereSteps_def fresh_def bobExcluded_def)

text \<open>
  C5. In every visualization \<open>executionSteps\<close> and \<open>dataFlow\<close>
  have the same length and \<open>dataFlow[i].stepOrder = executionSteps[i].order\<close>
  for every index \<open>i\<close>. Looking up the execution step whose order is a
  data-flow step's \<open>stepOrder\<close>, as \<open>selectCurrentExecutionStep\<close>
  does, succeeds and gives the step at the same position.
\<close>

theorem steps_pair_with_data_flow:
  assumes "visualize split acc e sid query = Inr v"
  shows "length (executionSteps v) = length (dataFlow v)
       \<and> (\<forall>i < length (dataFlow v).
             stepOrder (dataFlow v ! i) = ExecutionStep.order (executionSteps v ! i)
           \<and> find (\<lambda>step. ExecutionStep.order step = stepOrder (dataFlow v ! i)) (executionSteps v)
               = Some (executionSteps v ! i)
           \<and> selectCurrentExecutionStep
                 (s\<lparr> AppState.visualization := Some v, currentStepIndex := int i \<rparr>)
               = Some (executionSteps v ! i))"
proof -
  from assms obtain q steps where
    s: "simulate acc e (plan q) \<lparr> workingRows = [], workingColumns = [] \<rparr> = Inr steps"
    and v: "v = assemble (plan q) steps query"
    by (rule visualize_Inr)
  have len: "length steps = length (plan q)"
    by (rule simulate_length [OF s])
  have ex: "executionSteps v = map toExecutionStep (plan q)" and df: "dataFlow v = steps"
    by (simp_all add: v assemble_def)
  have ord: "ExecutionStep.order (executionSteps v ! i) = int i + 1" if "i < length (plan q)" for i
    using that by (simp add: ex toExecutionStep_def plan_order)
  have so: "stepOrder (dataFlow v ! i) = int i + 1" if "i < length (plan q)" for i
    using simulate_nth [OF s that] that by (simp add: df plan_order)
  have fnd: "find (\<lambda>step. ExecutionStep.order step = stepOrder (dataFlow v ! i)) (executionSteps v)
               = Some (executionSteps v ! i)" if "i < length (plan q)" for i
  proof -
    have "\<forall>j<i. ExecutionStep.order (executionSteps v ! j) \<noteq> stepOrder (dataFlow v ! i)"
      using that by (simp add: ord so)
    moreover have "ExecutionStep.order (executionSteps v ! i) = stepOrder (dataFlow v ! i)"
      using that by (simp add: ord so)
    moreover have "i < length (executionSteps v)"
      using that by (simp add: ex)
    ultimately show ?thesis
      unfolding find_Some_iff by blast
  qed
  have sel: "selectCurrentExecutionStep
                 (s\<lparr> AppState.visualization := Some v, currentStepIndex := int i \<rparr>)
               = Some (executionSteps v ! i)" if "i < length (plan q)" for i
    using that fnd [OF that] by (simp add: selectCurrentExecutionStep_def nth_opt_def df len)
  show ?thesis
    using ord so fnd sel by (simp add: ex df len)
qed

theorem steps_pair_with_data_flow_witness:
  "visualize demoSplit prePost demoEngine ''s-1'' whereText = Inr whereVis
   \<and> map stepOrder (dataFlow whereVis) = map ExecutionStep.order (executionSteps whereVis)
   \<and> selectCurrentExecutionStep
        (demoState\<lparr> AppState.visualization := Some whereVis, currentStepIndex := int 1 \<rparr>)
      = Some (executionSteps whereVis ! 1)"
proof -
  have "(1::nat) < length (dataFlow whereVis)"
    by (simp add: whereVis_def whereSteps_def)
  with steps_pair_with_data_flow [OF visualize_whereText, of demoState]
  have "selectCurrentExecutionStep
        (demoState\<lparr> AppState.visualization := Some whereVis, currentStepIndex := int 1 \<rparr>)
      = Some (executionSteps whereVis ! 1)"
    by blast
  moreover have "map stepOrder (dataFlow whereVis) = map ExecutionStep.order (executionSteps whereVis)"
    by (simp add: whereVis_def whereSteps_def)
  ultimately show ?thesis
    using visualize_whereText by simp
qed

lemma same_marks_same_reasons:
  assumes "map (\<lambda>r. (included r, excludedReason r)) ys = map (\<lambda>r. (included r, excludedReason r)) xs"
  shows "map excludedReason (excludedOf ys) = map excludedReason (excludedOf xs)"
proof -
  have "map excludedReason (excludedOf zs)
          = map snd (filter (\<lambda>p. \<not> fst p) (map (\<lambda>r. (included r, excludedReason r)) zs))" for zs
    by (induction zs) (simp_all add: excludedOf_def)
  with assms show ?thesis by simp
qed

lemma carried_reasons:
  assumes "carried a b" and "\<not> rebuilds (stepType b)"
  shows "subseq (excludedReasons a) (excludedReasons b)"
proof (cases "stepType b = SELECT")
  case True
  with assms(1) have "map (\<lambda>r. (included r, excludedReason r)) (DataFlowStep.rows b)
      = map (\<lambda>r. (included r, excludedReason r)) (DataFlowStep.rows a)"
    by (simp add: carried_def carriedRows_def)
  then have "excludedReasons b = excludedReasons a"
    unfolding excludedReasons_def by (rule same_marks_same_reasons)
  then show ?thesis by simp
next
  case False
  with assms(2) have "stepType b \<in> {WHERE, HAVING, ORDER_BY, LIMIT, OFFSET}"
    by (cases "stepType b") (simp_all add: rebuilds_def)
  with assms(1) have "subseq (excludedOf (DataFlowStep.rows a)) (excludedOf (DataFlowStep.rows b))"
    by (simp add: carried_def carriedRows_def)
  then show ?thesis
    unfolding excludedReasons_def by (rule subseq_map)
qed

lemma reasons_persist:
  assumes c: "\<forall>i. Suc i < length steps \<longrightarrow> carried (steps ! i) (steps ! Suc i)"
    and ij: "i \<le> j" and j: "j < length steps"
    and nr: "\<forall>k. i < k \<and> k \<le> j \<longrightarrow> \<not> rebuilds (stepType (steps ! k))"
  shows "subseq (excludedReasons (steps ! i)) (excludedReasons (steps ! j))"
  using ij j nr
proof (induction j rule: nat_induct_at_least)
  case base
  show ?case by simp
next
  case (Suc n)
  have "subseq (excludedReasons (steps ! i)) (excludedReasons (steps ! n))"
    using Suc by simp
  moreover have "subseq (excludedReasons (steps ! n)) (excludedReasons (steps ! Suc n))"
    using c Suc.prems Suc.hyps by (intro carried_reasons) auto
  ultimately show ?case
    by (rule subseq_order.trans)
qed

text \<open>
  C3. In every row of every step, \<open>excludedReason\<close> is present exactly when
  \<open>included\<close> is false. From each step to the next, the excluded rows are
  carried as \<open>carried\<close> says: kept with unchanged data and reason by WHERE,
  HAVING, ORDER BY, LIMIT and OFFSET, kept with unchanged flag and reason by SELECT, and
  dropped only by a stage that rebuilds the row set. Hence between any two steps with no
  rebuilding stage after the first, the reasons of the earlier step's excluded rows are
  all still there, in order, at the later step: a reason is given once and never changed
  downstream.
\<close>

theorem exclusion_is_marked_and_kept:
  assumes "visualize split acc e sid query = Inr v"
  shows "(\<forall>s \<in> set (dataFlow v). \<forall>r \<in> set (DataFlowStep.rows s).
            (excludedReason r \<noteq> None) = (\<not> included r))
       \<and> (\<forall>i. Suc i < length (dataFlow v) \<longrightarrow> carried (dataFlow v ! i) (dataFlow v ! Suc i))
       \<and> (\<forall>i j. i \<le> j \<and> j < length (dataFlow v)
               \<and> (\<forall>k. i < k \<and> k \<le> j \<longrightarrow> \<not> rebuilds (stepType (dataFlow v ! k)))
             \<longrightarrow> subseq (excludedReasons (dataFlow v ! i)) (excludedReasons (dataFlow v ! j)))"
proof -
  from assms obtain q steps where
    s: "simulate acc e (plan q) \<lparr> workingRows = [], workingColumns = [] \<rparr> = Inr steps"
    and v: "v = assemble (plan q) steps query"
    by (rule visualize_Inr)
  have df: "dataFlow v = steps"
    by (simp add: v assemble_def)
  have m: "\<forall>s \<in> set steps. \<forall>r \<in> set (DataFlowStep.rows s).
            (excludedReason r \<noteq> None) = (\<not> included r)"
  proof (intro ballI)
    fix s r
    assume a: "s \<in> set steps" and b: "r \<in> set (DataFlowStep.rows s)"
    have "wellMarked (workingRows \<lparr> workingRows = [], workingColumns = [] \<rparr>)"
      by (simp add: wellMarked_Nil)
    from simulate_wellMarked [OF s this a] b have "marked r"
      by (simp add: wellMarked_def)
    then show "(excludedReason r \<noteq> None) = (\<not> included r)"
      by (simp add: marked_def)
  qed
  have c: "\<forall>i. Suc i < length steps \<longrightarrow> carried (steps ! i) (steps ! Suc i)"
    using simulate_carried [OF s plan_typed] by simp
  have p: "\<forall>i j. i \<le> j \<and> j < length steps
               \<and> (\<forall>k. i < k \<and> k \<le> j \<longrightarrow> \<not> rebuilds (stepType (steps ! k)))
             \<longrightarrow> subseq (excludedReasons (steps ! i)) (excludedReasons (steps ! j))"
  proof (intro allI impI)
    fix i j
    assume h: "i \<le> j \<and> j < length steps
               \<and> (\<forall>k. i < k \<and> k \<le> j \<longrightarrow> \<not> rebuilds (stepType (steps ! k)))"
    show "subseq (excludedReasons (steps ! i)) (excludedReasons (steps ! j))"
      by (rule reasons_persist [OF c]) (use h in simp_all)
  qed
  show ?thesis
    unfolding df by (intro conjI m c p)
qed

theorem exclusion_is_marked_and_kept_witness:
  "visualize demoSplit prePost demoEngine ''s-1'' whereText = Inr whereVis
   \<and> excludedReasons (dataFlow whereVis ! 0) = []
   \<and> excludedReasons (dataFlow whereVis ! 1) = [Some ''Does not match: age > 21'']
   \<and> excludedReasons (dataFlow whereVis ! 3) = [Some ''Does not match: age > 21'']
   \<and> subseq (excludedReasons (dataFlow whereVis ! 1)) (excludedReasons (dataFlow whereVis ! 3))
   \<and> carried (dataFlow whereVis ! 2) (dataFlow whereVis ! 3)"
proof -
  note t = exclusion_is_marked_and_kept [OF visualize_whereText]
  have len: "length (dataFlow whereVis) = 4"
    by (simp add: whereVis_def whereSteps_def)
  have quiet: "\<forall>k. 1 < k \<and> k \<le> 3 \<longrightarrow> \<not> rebuilds (stepType (dataFlow whereVis ! k))"
  proof (intro allI impI)
    fix k :: nat
    assume "1 < k \<and> k \<le> 3"
    then consider "k = 2" | "k = 3" by linarith
    then show "\<not> rebuilds (stepType (dataFlow whereVis ! k))"
      by cases (simp_all add: whereVis_def whereSteps_def rebuilds_def)
  qed
  have "(1::nat) \<le> 3 \<and> 3 < length (dataFlow whereVis)
      \<and> (\<forall>k. 1 < k \<and> k \<le> 3 \<longrightarrow> \<not> rebuilds (stepType (dataFlow whereVis ! k)))"
    using len quiet by simp
  with t [THEN conjunct2, THEN conjunct2, rule_format, of 1 3]
  have p: "subseq (excludedReasons (dataFlow whereVis ! 1)) (excludedReasons (dataFlow whereVis ! 3))" .
  have "Suc 2 < length (dataFlow whereVis)"
    using len by simp
  with t [THEN conjunct2, THEN conjunct1, rule_format, of 2]
  have "carried (dataFlow whereVis ! 2) (dataFlow whereVis ! Suc 2)" .
  then have c: "carried (dataFlow whereVis ! 2) (dataFlow whereVis ! 3)"
    by (simp add: numeral_3_eq_3 numeral_2_eq_2)
  have r: "excludedReasons (dataFlow whereVis ! 0) = []"
    "excludedReasons (dataFlow whereVis ! 1) = [Some ''Does not match: age > 21'']"
    "excludedReasons (dataFlow whereVis ! 3) = [Some ''Does not match: age > 21'']"
    by (simp_all add: whereVis_def whereSteps_def excludedReasons_def excludedOf_def
          fresh_def bobExcluded_def)
  show ?thesis
    by (intro conjI visualize_whereText p c r)
qed




lemma positions:
  "map positionOf EXECUTION_ORDER = [0, 1, 2, 3, 4, 5, 6, 7, 8, 9]"
  by (simp add: positionOf_def EXECUTION_ORDER_def)











end
